theory Spec2Isabelle
  imports Main "HOL-Library.Sublist" "HOL-Library.Monad_Syntax"
begin

section \<open>Strings of the script\<close>

text \<open>
  The script \<^verbatim>\<open>scripts/suggest-jsdoc.cjs\<close> works on JavaScript strings. They are modelled
  as \<^typ>\<open>string\<close>, one \<^typ>\<open>char\<close> per code unit, so the embedding covers texts whose code
  units are below 256. The counts of lines and of array elements are \<^typ>\<open>nat\<close>: they are
  bounded by the length of a string and stay far below \<open>2 ^ 53\<close>, where the numbers of the
  script are exact. The line counters of the Diff Locator are set from the text of the diff,
  so they are modelled as the double precision numbers they are (\<open>number\<close> below).
\<close>

definition startsWith :: "string \<Rightarrow> string \<Rightarrow> bool" where
  "startsWith s p = prefix p s"

text \<open>\<^verbatim>\<open>s.split(sep)\<close> for a separator of one character: never the empty array.\<close>

fun split_on :: "char \<Rightarrow> string \<Rightarrow> string list" where
  "split_on sep [] = [[]]"
| "split_on sep (c # cs) =
     (if c = sep then [] # split_on sep cs
      else (case split_on sep cs of
              [] \<Rightarrow> [[c]]
            | l # ls \<Rightarrow> (c # l) # ls))"

text \<open>\<^verbatim>\<open>s.substring(a, b)\<close>: the arguments are swapped when \<open>a > b\<close> and clamped to the length.\<close>

definition substring :: "string \<Rightarrow> nat \<Rightarrow> nat \<Rightarrow> string" where
  "substring s a b = take (max a b - min a b) (drop (min a b) s)"

definition isDigit :: "char \<Rightarrow> bool" where
  "isDigit c = (48 \<le> (of_char c :: nat) \<and> (of_char c :: nat) \<le> 57)"

text \<open>The integer that a string of decimal digits denotes.\<close>

definition decimal :: "string \<Rightarrow> int" where
  "decimal ds = foldl (\<lambda>n c. 10 * n + (int (of_char c) - 48)) 0 ds"

text \<open>
  A number of the script is a double. \<open>number n\<close> is the double that the integer \<open>n\<close>
  becomes: \<open>n\<close> itself up to \<open>2 ^ 53\<close> in magnitude, and beyond that \<open>n\<close> rounded to 53
  significant bits, to the nearest and on a tie to the even significand. Every integer
  result of the script's arithmetic is rounded so. (From \<open>2 ^ 1024\<close> on the script has
  \<^verbatim>\<open>Infinity\<close>; such magnitudes are outside the embedding.)
\<close>

function bit_length :: "int \<Rightarrow> nat" where
  "bit_length n = (if n \<le> 0 then 0 else Suc (bit_length (n div 2)))"
  by pat_completeness auto
termination
  by (relation "measure nat") auto

declare bit_length.simps [simp del]

definition number :: "int \<Rightarrow> int" where
  "number n =
     (if \<bar>n\<bar> \<le> 2 ^ 53 then n
      else (let e = bit_length \<bar>n\<bar> - 53;
                q = \<bar>n\<bar> div 2 ^ e;
                r = \<bar>n\<bar> mod 2 ^ e;
                m = (if 2 * r > 2 ^ e \<or> (2 * r = 2 ^ e \<and> odd q) then q + 1 else q)
            in sgn n * (m * 2 ^ e)))"

text \<open>
  \<^verbatim>\<open>parseInt(ds, 10)\<close> on a string of decimal digits, which is all the script passes to it:
  the double nearest to the integer that the digits denote. (The standard fixes this for
  up to 20 significant digits and lets an engine read the digits after the 20th as 0; the
  embedding takes every digit as it is.)
\<close>

definition parseInt :: "string \<Rightarrow> int" where
  "parseInt ds = number (decimal ds)"

section \<open>The regular expressions of the Diff Locator\<close>

text \<open>
  A line terminator of the regular expression engine (among code units below 256):
  line feed and carriage return. With the flag \<^verbatim>\<open>m\<close>, \<^verbatim>\<open>^\<close> matches at index 0 and
  after a line terminator; \<^verbatim>\<open>.\<close> matches any character but a line terminator.
\<close>

definition isLineTerminator :: "char \<Rightarrow> bool" where
  "isLineTerminator c = (c = CHR 0x0A \<or> c = CHR 0x0D)"

datatype atom = Lit char | AnyChar

fun match_atoms :: "atom list \<Rightarrow> string \<Rightarrow> bool" where
  "match_atoms [] s = True"
| "match_atoms (a # as) [] = False"
| "match_atoms (Lit c # as) (x # xs) = (x = c \<and> match_atoms as xs)"
| "match_atoms (AnyChar # as) (x # xs) = (\<not> isLineTerminator x \<and> match_atoms as xs)"

text \<open>
  \<^verbatim>\<open>text.match(/^.../m)\<close> without the flag \<^verbatim>\<open>g\<close>: the index of the leftmost match.
  \<open>search_from p b i s\<close> looks at the rest \<open>s\<close> of the text, which begins at index \<open>i\<close>;
  \<open>b\<close> says whether \<^verbatim>\<open>^\<close> matches there.
\<close>

fun search_from :: "atom list \<Rightarrow> bool \<Rightarrow> nat \<Rightarrow> string \<Rightarrow> nat option" where
  "search_from p b i [] = (if b \<and> match_atoms p [] then Some i else None)"
| "search_from p b i (c # cs) =
     (if b \<and> match_atoms p (c # cs) then Some i
      else search_from p (isLineTerminator c) (Suc i) cs)"

definition search_m :: "atom list \<Rightarrow> string \<Rightarrow> nat option" where
  "search_m p s = search_from p True 0 s"

text \<open>
  The script builds the pattern of a file from its path, escaping \<^verbatim>\<open>/\<close> only:
  \<^verbatim>\<open>new RegExp(`^diff --git a/${filePath.replace(/\//g, '\\/')} b/${...}`, 'm')\<close>.
  A \<^verbatim>\<open>.\<close> of the path therefore stays a wildcard. The embedding covers the paths whose
  only character with a meaning in a regular expression is \<^verbatim>\<open>.\<close> (\<open>modelled_path\<close>).
\<close>

definition path_atoms :: "string \<Rightarrow> atom list" where
  "path_atoms p = map (\<lambda>c. if c = CHR ''.'' then AnyChar else Lit c) p"

definition modelled_path :: "string \<Rightarrow> bool" where
  "modelled_path p = (set p \<inter> set (CHR 0x5C # ''^$*+?()[]{}|'') = {})"

definition filePattern :: "string \<Rightarrow> atom list" where
  "filePattern filePath =
     map Lit ''diff --git a/'' @ path_atoms filePath @ map Lit '' b/'' @ path_atoms filePath"

definition nextFilePattern :: "atom list" where
  "nextFilePattern = map Lit ''diff --git''"

text \<open>
  The hunk header pattern \<^verbatim>\<open>/@@ -(\d+),\d+ \+(\d+),\d+ @@/\<close>. Each \<^verbatim>\<open>\d+\<close> is followed
  by a character that is no digit, so the greedy match takes the whole run of digits and
  backtracking finds nothing more. \<open>hunk_at\<close> matches at the start of a text and returns
  the two captured groups; \<open>hunk_search\<close> is the unanchored \<^verbatim>\<open>line.match\<close>.
\<close>

definition expect :: "string \<Rightarrow> string \<Rightarrow> string option" where
  "expect p s = (if prefix p s then Some (drop (length p) s) else None)"

definition digits1 :: "string \<Rightarrow> (string \<times> string) option" where
  "digits1 s = (if takeWhile isDigit s = [] then None
                else Some (takeWhile isDigit s, dropWhile isDigit s))"

definition hunk_at :: "string \<Rightarrow> (string \<times> string) option" where
  "hunk_at s = do {
     s1 \<leftarrow> expect ''@@ -'' s;
     (a, s2) \<leftarrow> digits1 s1;
     s3 \<leftarrow> expect '','' s2;
     (b, s4) \<leftarrow> digits1 s3;
     s5 \<leftarrow> expect '' +'' s4;
     (c, s6) \<leftarrow> digits1 s5;
     s7 \<leftarrow> expect '','' s6;
     (d, s8) \<leftarrow> digits1 s7;
     s9 \<leftarrow> expect '' @@'' s8;
     Some (a, c)
   }"

fun hunk_search :: "string \<Rightarrow> (string \<times> string) option" where
  "hunk_search [] = hunk_at []"
| "hunk_search (c # cs) =
     (case hunk_at (c # cs) of
        Some r \<Rightarrow> Some r
      | None \<Rightarrow> hunk_search cs)"

section \<open>The Diff Locator: \<^verbatim>\<open>getDiffPositions\<close>\<close>

text \<open>
  The variables of the loop over the lines of a file's segment: \<^verbatim>\<open>lineMap\<close> (an object
  keyed by numbers), \<^verbatim>\<open>currentPosition\<close>, \<^verbatim>\<open>leftLine\<close> and \<^verbatim>\<open>rightLine\<close>. The two line
  counters hold doubles with an integer value.
\<close>

record walk =
  lineMap :: "int \<rightharpoonup> nat"
  currentPosition :: nat
  leftLine :: int
  rightLine :: int

definition walk_init :: walk where
  "walk_init = \<lparr>lineMap = Map.empty, currentPosition = 0, leftLine = 0, rightLine = 0\<rparr>"

text \<open>
  One turn of the loop \<^verbatim>\<open>for (const line of lines)\<close>, its branches in the source's order.
  \<^verbatim>\<open>parseInt(...) - 1\<close>, \<^verbatim>\<open>leftLine++\<close> and \<^verbatim>\<open>rightLine++\<close> are arithmetic on doubles.
\<close>

definition classify :: "walk \<Rightarrow> string \<Rightarrow> walk" where
  "classify w line =
     (if startsWith line ''@@'' then
        (case hunk_search line of
           Some (a, c) \<Rightarrow>
             w\<lparr>leftLine := number (parseInt a - 1), rightLine := number (parseInt c - 1)\<rparr>
         | None \<Rightarrow> w)
      else if startsWith line ''-'' then
        w\<lparr>leftLine := number (leftLine w + 1)\<rparr>
      else if startsWith line ''+'' then
        w\<lparr>rightLine := number (rightLine w + 1),
          lineMap := (lineMap w)(number (rightLine w + 1) \<mapsto> currentPosition w)\<rparr>
      else if \<not> startsWith line ''diff'' \<and> \<not> startsWith line ''index''
              \<and> \<not> startsWith line ''---'' \<and> \<not> startsWith line ''+++'' then
        w\<lparr>leftLine := number (leftLine w + 1), rightLine := number (rightLine w + 1),
          lineMap := (lineMap w)(number (rightLine w + 1) \<mapsto> currentPosition w)\<rparr>
      else w)"

definition diff_step :: "walk \<Rightarrow> string \<Rightarrow> walk" where
  "diff_step w line = (classify w line)\<lparr>currentPosition := currentPosition (classify w line) + 1\<rparr>"

definition walk_lines :: "walk \<Rightarrow> string list \<Rightarrow> walk" where
  "walk_lines w lines = foldl diff_step w lines"

text \<open>
  The segment of the file: from the match of the file's pattern up to the next line
  that begins with \<^verbatim>\<open>diff --git\<close>, searched in \<^verbatim>\<open>diff.substring(fileStartIndex + 1)\<close>,
  or up to the end of the diff.
\<close>

definition fileSegment :: "string \<Rightarrow> string \<Rightarrow> string option" where
  "fileSegment diff filePath =
     (case search_m (filePattern filePath) diff of
        None \<Rightarrow> None
      | Some fileStartIndex \<Rightarrow>
          (let fileEndIndex =
                 (case search_m nextFilePattern (drop (fileStartIndex + 1) diff) of
                    Some j \<Rightarrow> fileStartIndex + 1 + j
                  | None \<Rightarrow> length diff)
           in Some (substring diff fileStartIndex fileEndIndex)))"

text \<open>What the script prints: \<^verbatim>\<open>console.log\<close> and \<^verbatim>\<open>console.error\<close>.\<close>

datatype console = Log string | Error string

text \<open>
  \<^verbatim>\<open>getDiffPositions(filePath)\<close>. The answer of \<^verbatim>\<open>octokit.pulls.get\<close> is an argument:
  \<open>Inr diff\<close> for the diff text, \<open>Inl e\<close> when the call throws (\<open>e\<close> is how the
  console renders the error). The result is the map and what was printed.
\<close>

definition getDiffPositions :: "string + string \<Rightarrow> string \<Rightarrow> (int \<rightharpoonup> nat) \<times> console list" where
  "getDiffPositions response filePath =
     (case response of
        Inl e \<Rightarrow> (Map.empty, [Error (''Error getting diff positions for '' @ filePath @ '': '' @ e)])
      | Inr diff \<Rightarrow>
          (case fileSegment diff filePath of
             None \<Rightarrow> (Map.empty, [Log (''No diff found for file: '' @ filePath)])
           | Some fileDiff \<Rightarrow>
               (lineMap (walk_lines walk_init (split_on CHR 0x0A fileDiff)), [])))"

section \<open>The Syntax Scanner: \<^verbatim>\<open>detectFunctions\<close>\<close>

text \<open>
  A comment of the parser's tree: its \<^verbatim>\<open>type\<close> (\<^verbatim>\<open>CommentBlock\<close> or \<^verbatim>\<open>CommentLine\<close>)
  and its \<^verbatim>\<open>value\<close>, the text between the comment marks.
\<close>

datatype comment = Comment (ctype: string) (cvalue: string)

text \<open>
  A node of the tree that \<^verbatim>\<open>parser.parse\<close> returns, with the properties the script
  reads: \<^verbatim>\<open>type\<close>, \<^verbatim>\<open>name\<close>, \<^verbatim>\<open>value\<close> (when it is a string), \<^verbatim>\<open>start\<close>, \<^verbatim>\<open>end\<close>,
  \<^verbatim>\<open>loc.start.line\<close> and \<^verbatim>\<open>leadingComments\<close>. \<open>children\<close> are the child nodes in the
  order the traversal visits them, and \<open>role\<close> is the property of the parent that holds
  the node (\<^verbatim>\<open>id\<close>, \<^verbatim>\<open>key\<close>, \<^verbatim>\<open>init\<close>, \<^verbatim>\<open>body\<close>, ...). \<open>parent_prop\<close> is the value of
  the node's own property \<^verbatim>\<open>parent\<close>, which the script reads as \<^verbatim>\<open>path.parent.parent\<close>;
  the nodes of \<^verbatim>\<open>@babel/parser\<close> have no such property (\<open>None\<close>): the parent of a node
  is kept in the traversal's path, as \<^verbatim>\<open>path.parent\<close>.
\<close>

datatype node = Node
  (role: string)
  (ntype: string)
  (nname: "string option")
  (nvalue: "string option")
  (nstart: nat)
  (nend: nat)
  (nline: nat)
  (leadingComments: "comment list option")
  (parent_prop: "node option")
  (children: "node list")

definition child :: "string \<Rightarrow> node \<Rightarrow> node option" where
  "child k n = find (\<lambda>c. role c = k) (children n)"

text \<open>A string property used as a condition: \<open>None\<close> when it is missing or empty.\<close>

definition truthy :: "string option \<Rightarrow> string option" where
  "truthy v = (case v of None \<Rightarrow> None | Some s \<Rightarrow> if s = [] then None else Some s)"

text \<open>
  \<^verbatim>\<open>x && x.leadingComments && x.leadingComments.some(comment =>
  comment.type === 'CommentBlock' && comment.value.startsWith('*'))\<close>
\<close>

definition isJSDoc :: "comment \<Rightarrow> bool" where
  "isJSDoc c = (ctype c = ''CommentBlock'' \<and> startsWith (cvalue c) ''*'')"

definition hasJSDoc :: "node option \<Rightarrow> bool" where
  "hasJSDoc x =
     (case x of
        None \<Rightarrow> False
      | Some n \<Rightarrow> (case leadingComments n of None \<Rightarrow> False | Some cs \<Rightarrow> list_ex isJSDoc cs))"

datatype kind = Function | Method

record callable =
  name :: string
  startIndex :: nat
  content :: string
  kind :: kind
  startLine :: nat
  lineContent :: string

text \<open>\<^verbatim>\<open>fileContent.split('\n')[line - 1] || ''\<close>\<close>

definition lineAt :: "string \<Rightarrow> nat \<Rightarrow> string" where
  "lineAt fileContent line =
     (if 1 \<le> line \<and> line - 1 < length (split_on CHR 0x0A fileContent)
      then split_on CHR 0x0A fileContent ! (line - 1) else [])"

definition found :: "string \<Rightarrow> string \<Rightarrow> kind \<Rightarrow> node \<Rightarrow> callable" where
  "found fileContent nm k n =
     \<lparr>name = nm, startIndex = nstart n,
      content = substring fileContent (nstart n) (nend n),
      kind = k, startLine = nline n, lineContent = lineAt fileContent (nline n)\<rparr>"

text \<open>
  The four handlers of the traversal, for a path with the node \<open>n\<close> and \<^verbatim>\<open>path.parent\<close>
  \<open>parent\<close>; each returns what it pushes to \<^verbatim>\<open>functions\<close>.
\<close>

definition FunctionDeclaration :: "string \<Rightarrow> node option \<Rightarrow> node \<Rightarrow> callable list" where
  "FunctionDeclaration fileContent parent n =
     (case Option.bind (child ''id'' n) (\<lambda>i. truthy (nname i)) of
        None \<Rightarrow> []
      | Some nm \<Rightarrow> if \<not> hasJSDoc parent then [found fileContent nm Function n] else [])"

definition VariableDeclarator :: "string \<Rightarrow> node option \<Rightarrow> node \<Rightarrow> callable list" where
  "VariableDeclarator fileContent parent n =
     (case Option.bind (child ''id'' n) (\<lambda>i. truthy (nname i)) of
        None \<Rightarrow> []
      | Some nm \<Rightarrow>
          (case child ''init'' n of
             None \<Rightarrow> []
           | Some init \<Rightarrow>
               if ntype init = ''FunctionExpression'' \<or> ntype init = ''ArrowFunctionExpression'' then
                 (if \<not> hasJSDoc (Option.bind parent parent_prop)
                  then [found fileContent nm Function n] else [])
               else []))"

definition ClassMethod :: "string \<Rightarrow> node option \<Rightarrow> node \<Rightarrow> callable list" where
  "ClassMethod fileContent parent n =
     (case Option.bind (child ''key'' n) (\<lambda>k. truthy (nname k)) of
        None \<Rightarrow> []
      | Some nm \<Rightarrow> if \<not> hasJSDoc (Some n) then [found fileContent nm Method n] else [])"

text \<open>\<^verbatim>\<open>node.key.name || (node.key.type === 'StringLiteral' && node.key.value)\<close>\<close>

definition keyName :: "node \<Rightarrow> string option" where
  "keyName k =
     (case truthy (nname k) of
        Some nm \<Rightarrow> Some nm
      | None \<Rightarrow> if ntype k = ''StringLiteral'' then truthy (nvalue k) else None)"

definition ObjectMethod :: "string \<Rightarrow> node option \<Rightarrow> node \<Rightarrow> callable list" where
  "ObjectMethod fileContent parent n =
     (case Option.bind (child ''key'' n) keyName of
        None \<Rightarrow> []
      | Some nm \<Rightarrow> if \<not> hasJSDoc (Some n) then [found fileContent nm Method n] else [])"

definition visitor :: "string \<Rightarrow> node option \<Rightarrow> node \<Rightarrow> callable list" where
  "visitor fileContent parent n =
     (if ntype n = ''FunctionDeclaration'' then FunctionDeclaration fileContent parent n
      else if ntype n = ''VariableDeclarator'' then VariableDeclarator fileContent parent n
      else if ntype n = ''ClassMethod'' then ClassMethod fileContent parent n
      else if ntype n = ''ObjectMethod'' then ObjectMethod fileContent parent n
      else [])"

text \<open>
  \<^verbatim>\<open>traverse(ast, {...})\<close>: every node below the root is visited on entry, before its
  children, with its parent node.
\<close>

fun visit :: "string \<Rightarrow> node option \<Rightarrow> node \<Rightarrow> callable list" where
  "visit fileContent parent (Node r t nm v s e l lc pp cs) =
     visitor fileContent parent (Node r t nm v s e l lc pp cs)
     @ concat (map (visit fileContent (Some (Node r t nm v s e l lc pp cs))) cs)"

definition traverse :: "node \<Rightarrow> string \<Rightarrow> callable list" where
  "traverse ast fileContent = concat (map (visit fileContent (Some ast)) (children ast))"

text \<open>
  \<^verbatim>\<open>detectFunctions(filePath)\<close>. \<open>file\<close> is the answer of \<^verbatim>\<open>fs.readFileSync\<close> and
  \<open>parse\<close> is \<^verbatim>\<open>parser.parse\<close> with the script's options: \<open>Inl\<close> holds the message of the
  error thrown. The traversal of a tree that was parsed is taken not to throw. The result
  is the array returned and what was printed.
\<close>

definition detectFunctions ::
  "string + string \<Rightarrow> (string \<Rightarrow> string + node) \<Rightarrow> string \<Rightarrow> callable list \<times> console list" where
  "detectFunctions file parse filePath =
     (case file of
        Inl e \<Rightarrow> ([], [Error (''Error detecting functions in '' @ filePath @ '': '' @ e)])
      | Inr fileContent \<Rightarrow>
          (case parse fileContent of
             Inl e \<Rightarrow> ([], [Error (''Error detecting functions in '' @ filePath @ '': '' @ e)])
           | Inr ast \<Rightarrow> (traverse ast fileContent, [])))"

section \<open>The Comment Synthesizer and the Publisher\<close>

text \<open>White space that \<^verbatim>\<open>trim()\<close> removes, among the code units below 256.\<close>

definition isSpace :: "char \<Rightarrow> bool" where
  "isSpace c = (of_char c \<in> {9, 10, 11, 12, 13, 32, 160 :: nat})"

definition trim :: "string \<Rightarrow> string" where
  "trim s = rev (dropWhile isSpace (rev (dropWhile isSpace s)))"

text \<open>A number inside a template string.\<close>

fun show_nat :: "nat \<Rightarrow> string" where
  "show_nat n =
     (if n < 10 then [''0123456789'' ! n]
      else show_nat (n div 10) @ [''0123456789'' ! (n mod 10)])"

declare show_nat.simps [simp del]

definition kind_name :: "kind \<Rightarrow> string" where
  "kind_name k = (case k of Function \<Rightarrow> ''function'' | Method \<Rightarrow> ''method'')"

text \<open>
  \<^verbatim>\<open>generateJSDocComment(functionName, functionContent, filePath)\<close>. \<open>completion\<close> is the
  answer to the request, \<open>Inr\<close> the text \<^verbatim>\<open>response.choices[0].message.content\<close> and \<open>Inl\<close>
  the error caught; the prompt that is sent is not part of the embedding. \<open>None\<close> is
  \<^verbatim>\<open>null\<close>.
\<close>

definition generateJSDocComment ::
  "string + string \<Rightarrow> string \<Rightarrow> string option \<times> console list" where
  "generateJSDocComment completion functionName =
     (case completion of
        Inl e \<Rightarrow> (None, [Error (''Error generating JSDoc for function '' @ functionName @ '': '' @ e)])
      | Inr text \<Rightarrow> (Some (trim text), []))"

record suggestion =
  s_filePath :: string
  s_position :: nat
  s_jsdocComment :: string
  s_lineContent :: string
  s_functionName :: string

record review_comment =
  c_path :: string
  c_position :: nat
  c_body :: string

text \<open>
  The run: the global \<^verbatim>\<open>stats\<close>, what was printed, and the reviews that
  \<^verbatim>\<open>octokit.pulls.createReview\<close> created, each with its comments.
\<close>

record statistics =
  totalFiles :: nat
  totalFunctions :: nat
  totalSuggestions :: nat
  suggestedFiles :: "(string \<times> nat) list"

record run =
  stats :: statistics
  printed :: "console list"
  reviews :: "review_comment list list"

definition run_init :: run where
  "run_init =
     \<lparr>stats = \<lparr>totalFiles = 0, totalFunctions = 0, totalSuggestions = 0, suggestedFiles = []\<rparr>,
      printed = [], reviews = []\<rparr>"

definition say :: "console list \<Rightarrow> run \<Rightarrow> run" where
  "say out r = r\<lparr>printed := printed r @ out\<rparr>"

definition review_body :: "suggestion \<Rightarrow> string" where
  "review_body s =
     s_jsdocComment s @ ''\<newline>\<newline>'' @ [CHR 0x60, CHR 0x60, CHR 0x60] @ ''suggestion\<newline>''
     @ s_jsdocComment s @ ''\<newline>'' @ s_lineContent s @ ''\<newline>'' @ [CHR 0x60, CHR 0x60, CHR 0x60]"

text \<open>
  \<^verbatim>\<open>submitPRReview(suggestions)\<close>. \<open>createReview\<close> is \<open>None\<close> when the request succeeds
  and \<open>Some e\<close> when it throws: the error is caught and printed here.
\<close>

definition submitPRReview :: "string option \<Rightarrow> suggestion list \<Rightarrow> run \<Rightarrow> run" where
  "submitPRReview createReview suggestions r =
     (if suggestions = [] then say [Log ''No suggestions to submit''] r
      else
        (let comments = map (\<lambda>s. \<lparr>c_path = s_filePath s, c_position = s_position s,
                                    c_body = review_body s\<rparr>) suggestions
         in case createReview of
              None \<Rightarrow>
                say [Log (''Successfully submitted '' @ show_nat (length comments) @ '' JSDoc suggestions'')]
                  (r\<lparr>reviews := reviews r @ [comments]\<rparr>)
            | Some e \<Rightarrow> say [Error (''Error submitting PR review: '' @ e)] r))"

section \<open>The Orchestrator: \<^verbatim>\<open>processFile\<close> and \<^verbatim>\<open>main\<close>\<close>

text \<open>
  What the outside answers while one file is processed: the read of the file, the parser,
  the request for the diff, the completion for the function of each index, and the
  request that creates the review.
\<close>

record file_world =
  readFile :: "string + string"
  parse :: "string \<Rightarrow> string + node"
  pullsGet :: "string + string"
  completions :: "nat \<Rightarrow> string + string"
  createReview :: "string option"

text \<open>
  The loop \<^verbatim>\<open>for (const func of functions)\<close> of \<^verbatim>\<open>processFile\<close>; \<open>k\<close> is the index of the
  function, \<open>suggestions\<close> the array built so far.
\<close>

fun suggest ::
  "(nat \<Rightarrow> string + string) \<Rightarrow> (int \<rightharpoonup> nat) \<Rightarrow> string \<Rightarrow> nat \<Rightarrow> callable list
     \<Rightarrow> suggestion list \<Rightarrow> run \<Rightarrow> suggestion list \<times> run" where
  "suggest answers diffPositions filePath k [] suggestions r = (suggestions, r)"
| "suggest answers diffPositions filePath k (func # funcs) suggestions r =
     (let r1 = say [Log (''Generating JSDoc for '' @ kind_name (kind func) @ '' '' @ name func)] r;
          (jsdocComment, out) = generateJSDocComment (answers k) (name func);
          r2 = say out r1
      in case truthy jsdocComment of
           None \<Rightarrow> suggest answers diffPositions filePath (Suc k) funcs suggestions r2
         | Some jsdoc \<Rightarrow>
             (case diffPositions (int (startLine func)) of
                Some position \<Rightarrow>
                  suggest answers diffPositions filePath (Suc k) funcs
                    (suggestions @ [\<lparr>s_filePath = filePath, s_position = position,
                                      s_jsdocComment = jsdoc, s_lineContent = lineContent func,
                                      s_functionName = name func\<rparr>])
                    (r2\<lparr>stats := (stats r2)\<lparr>totalSuggestions := totalSuggestions (stats r2) + 1\<rparr>\<rparr>)
              | None \<Rightarrow>
                  suggest answers diffPositions filePath (Suc k) funcs suggestions
                    (say [Log (''Could not find position for line '' @ show_nat (startLine func)
                               @ '' in '' @ filePath)] r2)))"

text \<open>
  \<^verbatim>\<open>processFile(filePath)\<close>. Every function it calls catches its own errors, so its own
  \<^verbatim>\<open>catch\<close> is never entered here; the number it returns is not used by \<^verbatim>\<open>main\<close>.
\<close>

definition processFile :: "file_world \<Rightarrow> string \<Rightarrow> run \<Rightarrow> run" where
  "processFile w filePath r =
     (let r1 = say [Log (''Processing file: '' @ filePath)] r;
          (functions, out) = detectFunctions (readFile w) (parse w) filePath;
          r2 = say out r1
      in if functions = [] then
           say [Log (''No functions without JSDoc found in '' @ filePath)] r2
         else
           (let r3 = say [Log (''Found '' @ show_nat (length functions)
                               @ '' functions without JSDoc in '' @ filePath)] r2;
                (diffPositions, out') = getDiffPositions (pullsGet w) filePath;
                r4 = say out' r3;
                (suggestions, r5) = suggest (completions w) diffPositions filePath 0 functions [] r4
            in if suggestions \<noteq> [] then
                 (let r6 = submitPRReview (createReview w) suggestions r5
                  in r6\<lparr>stats := (stats r6)\<lparr>suggestedFiles :=
                           suggestedFiles (stats r6) @ [(filePath, length suggestions)]\<rparr>\<rparr>)
               else r5))"

text \<open>The summary, as the bytes written to \<^verbatim>\<open>jsdoc-summary.md\<close>.\<close>

definition join :: "string \<Rightarrow> string list \<Rightarrow> string" where
  "join sep xs = (case xs of [] \<Rightarrow> [] | y # ys \<Rightarrow> y @ concat (map (\<lambda>z. sep @ z) ys))"

definition summary_row :: "string \<times> nat \<Rightarrow> string" where
  "summary_row file =
     ''| '' @ [CHR 0x60] @ fst file @ [CHR 0x60] @ '' | '' @ show_nat (snd file) @ '' |''"

definition summary_text :: "statistics \<Rightarrow> string" where
  "summary_text st =
     ''\<newline>## Summary of JSDoc Suggestions\<newline>\<newline>''
     @ [CHR 0xF0, CHR 0x9F, CHR 0x93, CHR 0x8A] @ '' **Statistics**:\<newline>''
     @ ''- Total files processed: '' @ show_nat (totalFiles st) @ ''\<newline>''
     @ ''- Total functions analyzed: '' @ show_nat (totalFunctions st) @ ''\<newline>''
     @ ''- Total JSDoc suggestions: '' @ show_nat (totalSuggestions st) @ ''\<newline>''
     @ ''- Files with suggestions: '' @ show_nat (length (suggestedFiles st)) @ ''\<newline>\<newline>''
     @ (if length (suggestedFiles st) > 0 then
          ''\<newline>## Files with JSDoc Suggestions\<newline>\<newline>''
          @ ''| File | Suggestions |\<newline>|------|-------------|\<newline>''
          @ join ''\<newline>'' (map summary_row (suggestedFiles st)) @ ''\<newline>''
        else [])
     @ ''\<newline>\<newline>''
     @ [CHR 0xE2, CHR 0x84, CHR 0xB9, CHR 0xEF, CHR 0xB8, CHR 0x8F]
     @ '' These JSDoc suggestions were automatically generated using AI. \<newline>''
     @ ''You can apply them directly by clicking the '' @ [CHR 0x22] @ ''Commit suggestion''
     @ [CHR 0x22] @ '' button on each review comment.\<newline>''"

text \<open>
  The list of files: \<^verbatim>\<open>process.env.files.split(' ')\<close> when the variable is set and not
  empty, the answer of \<^verbatim>\<open>glob.sync\<close> otherwise (\<open>Inl e\<close> when it throws).
\<close>

definition changedFiles :: "string option \<Rightarrow> string + string list \<Rightarrow> string + string list" where
  "changedFiles envFiles glob =
     (case truthy envFiles of
        Some files \<Rightarrow> Inr (split_on CHR '' '' files)
      | None \<Rightarrow> glob)"

text \<open>The loop \<^verbatim>\<open>for (const file of changedFiles)\<close>; \<open>ws i\<close> answers for the file of index \<open>i\<close>.\<close>

fun processFiles :: "(nat \<Rightarrow> file_world) \<Rightarrow> nat \<Rightarrow> string list \<Rightarrow> run \<Rightarrow> run" where
  "processFiles ws i [] r = r"
| "processFiles ws i (file # files) r =
     processFiles ws (Suc i) files
       (if trim file \<noteq> [] then processFile (ws i) (trim file) r else r)"

text \<open>
  How \<^verbatim>\<open>main\<close> ends: it returns early without a summary, it writes the summary, or it
  catches an error (of \<^verbatim>\<open>glob.sync\<close> or of \<^verbatim>\<open>fs.writeFileSync\<close>) and exits with code 1.
\<close>

datatype outcome = NoFiles | Written string | Exit1

definition main ::
  "string option \<Rightarrow> string + string list \<Rightarrow> (nat \<Rightarrow> file_world) \<Rightarrow> string option
     \<Rightarrow> run \<times> outcome" where
  "main envFiles glob ws writeError =
     (case changedFiles envFiles glob of
        Inl e \<Rightarrow> (say [Error (''Error in main function: '' @ e)] run_init, Exit1)
      | Inr files \<Rightarrow>
          if length files = 0 then (say [Log ''No JS/TS files to process.''] run_init, NoFiles)
          else
            (let r1 = run_init\<lparr>stats := (stats run_init)\<lparr>totalFiles := length files\<rparr>\<rparr>;
                 r2 = say [Log (''Found '' @ show_nat (length files) @ '' files to process'')] r1;
                 r3 = processFiles ws 0 files r2;
                 summary = summary_text (stats r3)
             in case writeError of
                  None \<Rightarrow> (say [Log ''Summary file generated.''] r3, Written summary)
                | Some e \<Rightarrow> (say [Error (''Error in main function: '' @ e)] r3, Exit1)))"

text \<open>The number of review comments that the run has published.\<close>

definition published :: "run \<Rightarrow> nat" where
  "published r = length (concat (reviews r))"

section \<open>Example inputs\<close>

text \<open>
  The tree of \<^verbatim>\<open>function add(a,b) { return a+b; }\<close>, a declaration that begins at the offset
  \<open>off\<close> on the line \<open>line\<close> and carries the leading comments \<open>lc\<close>.
\<close>

definition add_declaration :: "nat \<Rightarrow> nat \<Rightarrow> comment list option \<Rightarrow> node" where
  "add_declaration off line lc =
     Node ''body'' ''FunctionDeclaration'' None None off (off + 33) line lc None
       [Node ''id'' ''Identifier'' (Some ''add'') None (off + 9) (off + 12) line None None [],
        Node ''params'' ''Identifier'' (Some ''a'') None (off + 13) (off + 14) line None None [],
        Node ''params'' ''Identifier'' (Some ''b'') None (off + 15) (off + 16) line None None [],
        Node ''body'' ''BlockStatement'' None None (off + 18) (off + 33) line None None
          [Node ''body'' ''ReturnStatement'' None None (off + 20) (off + 31) line None None
             [Node ''argument'' ''BinaryExpression'' None None (off + 27) (off + 30) line None None
                [Node ''left'' ''Identifier'' (Some ''a'') None (off + 27) (off + 28) line None None [],
                 Node ''right'' ''Identifier'' (Some ''b'') None (off + 29) (off + 30) line None None []]]]]"

definition program :: "nat \<Rightarrow> node list \<Rightarrow> node" where
  "program len body =
     Node [] ''File'' None None 0 len 1 None None
       [Node ''program'' ''Program'' None None 0 len 1 None None body]"

text \<open>The file \<^verbatim>\<open>math.js\<close>: the function \<^verbatim>\<open>add\<close> on line 1, without a comment.\<close>

definition math_js :: string where
  "math_js = ''function add(a,b) { return a+b; }\<newline>module.exports = add;''"

definition math_ast :: node where
  "math_ast =
     program 55
       [add_declaration 0 1 None,
        Node ''body'' ''ExpressionStatement'' None None 34 55 2 None None
          [Node ''expression'' ''AssignmentExpression'' None None 34 54 2 None None
             [Node ''left'' ''MemberExpression'' None None 34 48 2 None None
                [Node ''object'' ''Identifier'' (Some ''module'') None 34 40 2 None None [],
                 Node ''property'' ''Identifier'' (Some ''exports'') None 41 48 2 None None []],
              Node ''right'' ''Identifier'' (Some ''add'') None 51 54 2 None None []]]]"

text \<open>A pull request that changes line 1 of \<^verbatim>\<open>math.js\<close>.\<close>

definition math_diff :: string where
  "math_diff = ''diff --git a/math.js b/math.js\<newline>index 3b18e51..7c4a013 100644\<newline>--- a/math.js\<newline>+++ b/math.js\<newline>@@ -1,2 +1,2 @@\<newline>-function add(a,b) { return a-b; }\<newline>+function add(a,b) { return a+b; }\<newline> module.exports = add;\<newline>''"

text \<open>
  The answers for \<^verbatim>\<open>math.js\<close>: the file is read and parsed, the diff is fetched, the
  completion is a comment, and the review request answers \<open>review\<close>.
\<close>

definition math_world :: "string option \<Rightarrow> file_world" where
  "math_world review =
     \<lparr>readFile = Inr math_js, parse = (\<lambda>text. Inr math_ast), pullsGet = Inr math_diff,
      completions = (\<lambda>k. Inr ''/** Adds two numbers. */''), createReview = review\<rparr>"

text \<open>The same function with a documentation comment on the line before it.\<close>

definition documented_js :: string where
  "documented_js = ''/** Adds. */\<newline>function add(a,b) { return a+b; }''"

definition documented_ast :: node where
  "documented_ast =
     program 46 [add_declaration 13 2 (Some [Comment ''CommentBlock'' ''* Adds. ''])]"

section \<open>Properties of the Diff Locator\<close>

lemma classify_position: "currentPosition (classify w line) = currentPosition w"
  by (simp add: classify_def split: option.split prod.split)

lemma diff_step_position: "currentPosition (diff_step w line) = currentPosition w + 1"
  by (simp add: diff_step_def classify_position)

lemma walk_lines_position: "currentPosition (walk_lines w ls) = currentPosition w + length ls"
  by (induction ls arbitrary: w) (simp_all add: walk_lines_def diff_step_position)

lemma walk_lines_Cons: "walk_lines w (l # ls) = walk_lines (diff_step w l) ls"
  by (simp add: walk_lines_def)

lemma number_exact: "\<bar>n\<bar> \<le> 9007199254740992 \<Longrightarrow> number n = n"
  by (simp add: number_def)

lemma step_removed:
  "startsWith line ''-'' \<Longrightarrow>
   diff_step w line
     = w\<lparr>leftLine := number (leftLine w + 1), currentPosition := currentPosition w + 1\<rparr>"
  by (cases line) (auto simp: diff_step_def classify_def startsWith_def)

lemma step_added:
  "startsWith line ''+'' \<Longrightarrow>
   diff_step w line = w\<lparr>rightLine := number (rightLine w + 1),
       lineMap := (lineMap w)(number (rightLine w + 1) \<mapsto> currentPosition w),
       currentPosition := currentPosition w + 1\<rparr>"
  by (cases line) (auto simp: diff_step_def classify_def startsWith_def)

lemma step_file_header:
  "startsWith line ''diff'' \<or> startsWith line ''index'' \<Longrightarrow>
   diff_step w line = w\<lparr>currentPosition := currentPosition w + 1\<rparr>"
  by (cases line) (auto simp: diff_step_def classify_def startsWith_def)


lemma last_branch_tests_are_dead:
  "\<not> startsWith line ''-'' \<Longrightarrow> \<not> startsWith line ''---''"
  "\<not> startsWith line ''+'' \<Longrightarrow> \<not> startsWith line ''+++''"
  by (cases line; simp add: startsWith_def)+

lemma takeWhile_digits:
  "\<forall>x\<in>set a. isDigit x \<Longrightarrow> \<not> isDigit c \<Longrightarrow> takeWhile isDigit (a @ c # r) = a"
  by (induction a) simp_all

lemma dropWhile_digits:
  "\<forall>x\<in>set a. isDigit x \<Longrightarrow> \<not> isDigit c \<Longrightarrow> dropWhile isDigit (a @ c # r) = c # r"
  by (induction a) simp_all

lemma digits1_run:
  "a \<noteq> [] \<Longrightarrow> \<forall>x\<in>set a. isDigit x \<Longrightarrow> \<not> isDigit c \<Longrightarrow> digits1 (a @ c # r) = Some (a, c # r)"
  by (simp add: digits1_def takeWhile_digits dropWhile_digits)

lemma not_digit [simp]: "\<not> isDigit CHR '',''" "\<not> isDigit CHR '' ''" "\<not> isDigit CHR ''@''"
  by (simp_all add: isDigit_def)

lemma hunk_at_header:
  assumes "a \<noteq> []" "b \<noteq> []" "c \<noteq> []" "d \<noteq> []"
    and "\<forall>x\<in>set a. isDigit x" "\<forall>x\<in>set b. isDigit x" "\<forall>x\<in>set c. isDigit x" "\<forall>x\<in>set d. isDigit x"
  shows "hunk_at (''@@ -'' @ a @ '','' @ b @ '' +'' @ c @ '','' @ d @ '' @@'' @ rest) = Some (a, c)"
  using assms by (simp add: hunk_at_def expect_def digits1_run)


lemma expect_Some: "expect p s = Some s' \<Longrightarrow> s = p @ s'"
  by (auto simp: expect_def prefix_def split: if_splits)

lemma digits1_Some: "digits1 s = Some (a, s') \<Longrightarrow> s = a @ s'"
  by (auto simp: digits1_def split: if_splits)

lemma hunk_at_shape:
  assumes "hunk_at t = Some r"
  shows "\<exists>u v. t = ''@@ -'' @ u @ '' @@'' @ v"
proof -
  from assms obtain s1 a s2 s3 b s4 s5 c s6 s7 d s8 s9 where
    e1: "expect ''@@ -'' t = Some s1" and d1: "digits1 s1 = Some (a, s2)" and
    e2: "expect '','' s2 = Some s3" and d2: "digits1 s3 = Some (b, s4)" and
    e3: "expect '' +'' s4 = Some s5" and d3: "digits1 s5 = Some (c, s6)" and
    e4: "expect '','' s6 = Some s7" and d4: "digits1 s7 = Some (d, s8)" and
    e5: "expect '' @@'' s8 = Some s9"
    by (auto simp: hunk_at_def split: Option.bind_splits prod.splits)
  have "t = ''@@ -'' @ (a @ '','' @ b @ '' +'' @ c @ '','' @ d) @ '' @@'' @ s9"
    using expect_Some[OF e1] digits1_Some[OF d1] expect_Some[OF e2] digits1_Some[OF d2]
      expect_Some[OF e3] digits1_Some[OF d3] expect_Some[OF e4] digits1_Some[OF d4]
      expect_Some[OF e5] by simp
  then show ?thesis by blast
qed

lemma hunk_at_needs_at: "x \<noteq> CHR ''@'' \<Longrightarrow> hunk_at (x # xs) = None"
  by (simp add: hunk_at_def expect_def)

lemma hunk_search_skip: "CHR ''@'' \<notin> set u \<Longrightarrow> hunk_search (u @ s) = hunk_search s"
  by (induction u) (auto simp: hunk_at_needs_at)

lemma hunk_at_tail_None:
  assumes "CHR ''@'' \<notin> set rest"
  shows "hunk_at (''@@'' @ rest) = None" and "hunk_at (''@'' @ rest) = None"
proof -
  show "hunk_at (''@@'' @ rest) = None"
  proof (rule ccontr)
    assume "hunk_at (''@@'' @ rest) \<noteq> None"
    then obtain r where "hunk_at (''@@'' @ rest) = Some r" by auto
    from hunk_at_shape[OF this] obtain u v where "''@@'' @ rest = ''@@ -'' @ u @ '' @@'' @ v" by blast
    then have "rest = '' -'' @ u @ '' @@'' @ v" by simp
    with assms show False by auto
  qed
  show "hunk_at (''@'' @ rest) = None"
  proof (rule ccontr)
    assume "hunk_at (''@'' @ rest) \<noteq> None"
    then obtain r where "hunk_at (''@'' @ rest) = Some r" by auto
    from hunk_at_shape[OF this] obtain u v where "''@'' @ rest = ''@@ -'' @ u @ '' @@'' @ v" by blast
    then have "rest = ''@ -'' @ u @ '' @@'' @ v" by simp
    with assms show False by auto
  qed
qed

lemma digits_no_at: "\<forall>x\<in>set a. isDigit x \<Longrightarrow> CHR ''@'' \<notin> set a"
  by (auto simp: isDigit_def)

lemma decimal_foldl_nonneg:
  "\<forall>x\<in>set ds. isDigit x \<Longrightarrow> 0 \<le> n \<Longrightarrow>
   0 \<le> foldl (\<lambda>n c. 10 * n + (int (of_char c) - 48)) n ds"
proof (induction ds arbitrary: n)
  case Nil
  then show ?case by simp
next
  case (Cons d ds)
  from Cons.prems have "0 \<le> 10 * n + (int (of_char d) - 48)"
    by (simp add: isDigit_def)
  with Cons show ?case by simp
qed

lemma decimal_nonneg: "\<forall>x\<in>set ds. isDigit x \<Longrightarrow> 0 \<le> decimal ds"
  by (simp add: decimal_def decimal_foldl_nonneg)

lemma hunk_header_step:
  assumes "a \<noteq> []" "b \<noteq> []" "c \<noteq> []" "d \<noteq> []"
    and "\<forall>x\<in>set (a @ b @ c @ d). isDigit x"
  shows "diff_step w (''@@ -'' @ a @ '','' @ b @ '' +'' @ c @ '','' @ d @ '' @@'' @ rest)
           = w\<lparr>leftLine := number (parseInt a - 1), rightLine := number (parseInt c - 1),
                currentPosition := currentPosition w + 1\<rparr>"
proof -
  let ?h = "''@@ -'' @ a @ '','' @ b @ '' +'' @ c @ '','' @ d @ '' @@'' @ rest"
  have "hunk_at ?h = Some (a, c)"
    using assms by (intro hunk_at_header) auto
  then have "hunk_search ?h = Some (a, c)" by simp
  then show ?thesis
    by (simp add: diff_step_def classify_def startsWith_def)
qed

lemma exact_start:
  assumes "\<forall>x\<in>set a. isDigit x" and "decimal a \<le> 9007199254740992"
  shows "number (parseInt a - 1) = decimal a - 1"
proof -
  have n: "0 \<le> decimal a" using assms(1) by (rule decimal_nonneg)
  with assms(2) have "parseInt a = decimal a"
    by (simp add: parseInt_def number_exact)
  moreover have "\<bar>decimal a - 1\<bar> \<le> 9007199254740992" using n assms(2) by simp
  ultimately show ?thesis by (simp add: number_exact)
qed

lemma getDiffPositions_walk:
  "fileSegment diff filePath = Some seg \<Longrightarrow>
   getDiffPositions (Inr diff) filePath
     = (lineMap (walk_lines walk_init (split_on CHR 0x0A seg)), [])"
  by (simp add: getDiffPositions_def)

lemma search_from_bounds:
  "search_from p b i s = Some k \<Longrightarrow> i \<le> k \<and> k \<le> i + length s \<and> match_atoms p (drop (k - i) s)"
proof (induction s arbitrary: b i)
  case Nil
  then show ?case by (auto split: if_splits)
next
  case (Cons c cs)
  show ?case
  proof (cases "b \<and> match_atoms p (c # cs)")
    case True
    with Cons.prems show ?thesis by simp
  next
    case False
    with Cons.prems have s: "search_from p (isLineTerminator c) (Suc i) cs = Some k" by auto
    from Cons.IH[OF s] have "Suc i \<le> k" "k \<le> Suc i + length cs" "match_atoms p (drop (k - Suc i) cs)"
      by auto
    moreover from \<open>Suc i \<le> k\<close> have "drop (k - i) (c # cs) = drop (k - Suc i) cs"
      by (simp add: Suc_diff_le drop_Cons')
    ultimately show ?thesis by simp
  qed
qed

lemma match_atoms_append: "match_atoms (p @ q) s \<Longrightarrow> match_atoms p s"
  by (induction p s rule: match_atoms.induct) auto

lemma match_literal_prefix: "match_atoms (map Lit h) s \<Longrightarrow> prefix h s"
  by (induction h arbitrary: s; case_tac s) auto

lemma split_on_first:
  "sep \<notin> set p \<Longrightarrow> \<exists>l ls. split_on sep (p @ t) = (p @ l) # ls"
proof (induction p)
  case Nil
  show ?case by (cases t; simp split: list.splits)
next
  case (Cons x p)
  then obtain l ls where "split_on sep (p @ t) = (p @ l) # ls" by auto
  with Cons.prems show ?case by auto
qed

lemma take_prefix_more: "length p \<le> m \<Longrightarrow> take m (p @ t) = p @ take (m - length p) t"
  by simp

lemma fileSegment_start:
  assumes "fileSegment diff filePath = Some seg"
  shows "\<exists>rest ls. split_on CHR 0x0A seg = (''diff --git a/'' @ rest) # ls"
proof -
  from assms obtain k where k: "search_m (filePattern filePath) diff = Some k"
    by (auto simp: fileSegment_def split: option.splits)
  from search_from_bounds[of "filePattern filePath" True 0 diff k] k
  have m: "match_atoms (filePattern filePath) (drop k diff)"
    by (auto simp: search_m_def)
  from m have "match_atoms (map Lit ''diff --git a/'') (drop k diff)"
    unfolding filePattern_def by (rule match_atoms_append)
  then have "prefix ''diff --git a/'' (drop k diff)"
    by (rule match_literal_prefix)
  then obtain t where t: "drop k diff = ''diff --git a/'' @ t"
    by (auto simp: prefix_def)
  have "length (drop k diff) = 13 + length t"
    by (simp only: t) simp
  then have kl: "k + 13 + length t = length diff"
    by simp
  define e where "e = (case search_m nextFilePattern (drop (k + 1) diff) of
                    Some j \<Rightarrow> k + 1 + j | None \<Rightarrow> length diff)"
  have seg: "seg = substring diff k e"
    using assms k by (simp add: fileSegment_def e_def Let_def)
  have "drop (k + 1) diff = drop 1 (drop k diff)" by simp
  then have d1: "drop (k + 1) diff = ''iff --git a/'' @ t" by (simp only: t) simp
  have next_from: "search_m nextFilePattern (drop (k + 1) diff) = search_from nextFilePattern False 12 t"
    unfolding d1
    by (simp add: search_m_def nextFilePattern_def isLineTerminator_def eval_nat_numeral)
  have ke: "k + 13 \<le> e"
  proof (cases "search_m nextFilePattern (drop (k + 1) diff)")
    case None
    then show ?thesis using kl by (simp add: e_def)
  next
    case (Some j)
    with next_from have "search_from nextFilePattern False 12 t = Some j" by simp
    from search_from_bounds[OF this] have "12 \<le> j" by simp
    with Some show ?thesis by (simp add: e_def)
  qed
  then have "seg = take (e - k) (drop k diff)"
    by (simp add: seg substring_def min_def max_def)
  then have s1: "seg = take (e - k) (''diff --git a/'' @ t)"
    by (simp only: t)
  have "length ''diff --git a/'' \<le> e - k" using ke by simp
  from take_prefix_more[OF this, of t] s1
  obtain t' where "seg = ''diff --git a/'' @ t'" by blast
  moreover have "\<exists>l ls. split_on CHR 0x0A (''diff --git a/'' @ t') = (''diff --git a/'' @ l) # ls"
    by (rule split_on_first) simp
  ultimately show ?thesis by auto
qed

lemma hunk_search_past_short_header:
  assumes "a \<noteq> []" "\<forall>x\<in>set a. isDigit x" "\<forall>x\<in>set c. isDigit x"
  shows "hunk_search (''@@ -'' @ a @ '' +'' @ c @ '' @@'' @ rest) = hunk_search (''@@'' @ rest)"
proof -
  have h0: "hunk_at (''@@ -'' @ a @ '' +'' @ c @ '' @@'' @ rest) = None"
    using assms by (simp add: hunk_at_def expect_def digits1_run)
  have h1: "hunk_at (''@ -'' @ a @ '' +'' @ c @ '' @@'' @ rest) = None"
    by (simp add: hunk_at_def expect_def)
  have noat: "CHR ''@'' \<notin> set ('' -'' @ a @ '' +'' @ c @ '' '')"
    using digits_no_at[OF assms(2)] digits_no_at[OF assms(3)] by simp
  have "hunk_search (''@@ -'' @ a @ '' +'' @ c @ '' @@'' @ rest)
        = hunk_search (('' -'' @ a @ '' +'' @ c @ '' '') @ ''@@'' @ rest)"
    using h0 h1 by simp
  also have "\<dots> = hunk_search (''@@'' @ rest)"
    by (rule hunk_search_skip[OF noat])
  finally show ?thesis .
qed

lemma hunk_search_no_at:
  assumes "CHR ''@'' \<notin> set rest"
  shows "hunk_search (''@@'' @ rest) = None"
proof -
  have "hunk_search (''@@'' @ rest) = hunk_search (rest @ [])"
    using hunk_at_tail_None[OF assms] by simp
  also have "\<dots> = hunk_search []"
    by (rule hunk_search_skip[OF assms])
  also have "\<dots> = None"
    by (simp add: hunk_at_def expect_def)
  finally show ?thesis .
qed

text \<open>
  Claim C3, amended. A hunk header line \<^verbatim>\<open>@@ -a,b +c,d @@\<close> (with any text after it) whose
  \<open>a\<close> and \<open>c\<close> are at most \<open>2 ^ 53\<close> sets \<^verbatim>\<open>leftLine\<close> to \<open>a - 1\<close> and \<^verbatim>\<open>rightLine\<close> to
  \<open>c - 1\<close>. The position counter is 0 before the first line and every line, the hunk header
  too, adds exactly one to it: the line of index \<open>i\<close> is handled at position \<open>i\<close>.
  \<^verbatim>\<open>getDiffPositions\<close> runs this walk, from position 0, on the lines of the segment of the
  file, and the first of them is the line \<^verbatim>\<open>diff --git a/...\<close> that the pattern matched.
\<close>

theorem hunk_header_resets_counters:
  assumes "a \<noteq> []" "b \<noteq> []" "c \<noteq> []" "d \<noteq> []"
    and "\<forall>x\<in>set (a @ b @ c @ d). isDigit x"
    and "decimal a \<le> 2 ^ 53" "decimal c \<le> 2 ^ 53"
  shows "diff_step w (''@@ -'' @ a @ '','' @ b @ '' +'' @ c @ '','' @ d @ '' @@'' @ rest)
           = w\<lparr>leftLine := decimal a - 1, rightLine := decimal c - 1,
                currentPosition := currentPosition w + 1\<rparr>
         \<and> currentPosition walk_init = 0
         \<and> currentPosition (diff_step w line) = currentPosition w + 1
         \<and> currentPosition (walk_lines walk_init (take i lines)) = min i (length lines)
         \<and> (fileSegment diff filePath = Some seg \<longrightarrow>
              getDiffPositions (Inr diff) filePath
                = (lineMap (walk_lines walk_init (split_on CHR 0x0A seg)), [])
              \<and> (\<exists>rest ls. split_on CHR 0x0A seg = (''diff --git a/'' @ rest) # ls))"
proof -
  have ea: "number (parseInt a - 1) = decimal a - 1" and ec: "number (parseInt c - 1) = decimal c - 1"
    using assms(5,6,7) by (simp_all add: exact_start)
  have "diff_step w (''@@ -'' @ a @ '','' @ b @ '' +'' @ c @ '','' @ d @ '' @@'' @ rest)
           = w\<lparr>leftLine := decimal a - 1, rightLine := decimal c - 1,
                currentPosition := currentPosition w + 1\<rparr>"
    using hunk_header_step[OF assms(1-5), of w rest] by (simp only: ea ec)
  moreover have "currentPosition walk_init = 0" by (simp add: walk_init_def)
  moreover have "currentPosition (walk_lines walk_init (take i lines)) = min i (length lines)"
    by (simp add: walk_lines_position walk_init_def min.commute)
  ultimately show ?thesis
    using getDiffPositions_walk[of diff filePath seg] fileSegment_start[of diff filePath seg]
    by (simp add: diff_step_position)
qed

text \<open>
  The header \<^verbatim>\<open>@@ -10,2 +7,3 @@ f()\<close>: the counters become 9 and 6. It is line 1 of a
  segment that \<^verbatim>\<open>getDiffPositions\<close> walks from its line 0.
\<close>

theorem hunk_header_resets_counters_witness:
  "diff_step walk_init ''@@ -10,2 +7,3 @@ f()''
     = \<lparr>lineMap = Map.empty, currentPosition = 1, leftLine = 9, rightLine = 6\<rparr>
   \<and> currentPosition (diff_step walk_init ''+x'') = 1
   \<and> currentPosition (walk_lines walk_init (take 2 [''diff --git a/f b/f'', ''@@ -10,2 +7,3 @@ f()'', ''+x''])) = 2
   \<and> fileSegment ''diff --git a/f b/f\<newline>@@ -10,2 +7,3 @@ f()\<newline>+x'' ''f''
       = Some ''diff --git a/f b/f\<newline>@@ -10,2 +7,3 @@ f()\<newline>+x''
   \<and> getDiffPositions (Inr ''diff --git a/f b/f\<newline>@@ -10,2 +7,3 @@ f()\<newline>+x'') ''f''
       = (lineMap (walk_lines walk_init
            (split_on CHR 0x0A ''diff --git a/f b/f\<newline>@@ -10,2 +7,3 @@ f()\<newline>+x'')), [])"
proof -
  have f: "fileSegment ''diff --git a/f b/f\<newline>@@ -10,2 +7,3 @@ f()\<newline>+x'' ''f''
       = Some ''diff --git a/f b/f\<newline>@@ -10,2 +7,3 @@ f()\<newline>+x''"
    by (simp add: fileSegment_def search_m_def filePattern_def path_atoms_def nextFilePattern_def
        isLineTerminator_def substring_def)
  show ?thesis
    using hunk_header_resets_counters[of "''10''" "''2''" "''7''" "''3''" walk_init "'' f()''" "''+x''"
      2 "[''diff --git a/f b/f'', ''@@ -10,2 +7,3 @@ f()'', ''+x'']"
      "''diff --git a/f b/f\<newline>@@ -10,2 +7,3 @@ f()\<newline>+x''" "''f''"
      "''diff --git a/f b/f\<newline>@@ -10,2 +7,3 @@ f()\<newline>+x''"] f
    by (simp add: isDigit_def decimal_def walk_init_def)
qed

text \<open>
  Claim C3 as stated: the start line \<open>2 ^ 53 + 1\<close> is no double. \<^verbatim>\<open>parseInt\<close> rounds it to
  \<open>2 ^ 53\<close>, so \<^verbatim>\<open>rightLine\<close> becomes \<open>2 ^ 53 - 1\<close> and not \<open>c - 1 = 2 ^ 53\<close>.
\<close>

theorem hunk_header_rounds_counterexample:
  "rightLine (diff_step walk_init ''@@ -1,1 +9007199254740993,1 @@'') = 9007199254740991
   \<and> decimal ''9007199254740993'' - 1 = 9007199254740992"
  by code_simp

text \<open>
  Claim C10, amended. On a hunk header \<^verbatim>\<open>@@ -a +c @@\<close> without the lengths, followed by any
  heading, the header pattern can only match inside the text that begins at the closing
  \<^verbatim>\<open>@@\<close>. When it does not match there, and so whenever the heading has no \<^verbatim>\<open>@\<close>, the line
  only takes one position, \<^verbatim>\<open>leftLine\<close> and \<^verbatim>\<open>rightLine\<close> keep their values, and the lines
  after it are walked from these stale counters. In every case the line is handled as the
  text from its closing \<^verbatim>\<open>@@\<close> on would be.
\<close>

theorem short_hunk_header_keeps_counters:
  assumes "a \<noteq> []" "c \<noteq> []" "\<forall>x\<in>set (a @ c). isDigit x"
  shows "hunk_search (''@@ -'' @ a @ '' +'' @ c @ '' @@'' @ rest) = hunk_search (''@@'' @ rest)
         \<and> (hunk_search (''@@'' @ rest) = None \<longrightarrow>
              diff_step w (''@@ -'' @ a @ '' +'' @ c @ '' @@'' @ rest)
                = w\<lparr>currentPosition := currentPosition w + 1\<rparr>
              \<and> walk_lines w ((''@@ -'' @ a @ '' +'' @ c @ '' @@'' @ rest) # body)
                = walk_lines (w\<lparr>currentPosition := currentPosition w + 1\<rparr>) body)
         \<and> diff_step w (''@@ -'' @ a @ '' +'' @ c @ '' @@'' @ rest) = diff_step w (''@@'' @ rest)
         \<and> (CHR ''@'' \<notin> set rest \<longrightarrow> hunk_search (''@@'' @ rest) = None)"
proof -
  let ?h = "''@@ -'' @ a @ '' +'' @ c @ '' @@'' @ rest"
  have e: "hunk_search ?h = hunk_search (''@@'' @ rest)"
    using assms by (intro hunk_search_past_short_header) auto
  have n: "diff_step w ?h = w\<lparr>currentPosition := currentPosition w + 1\<rparr>"
    if "hunk_search (''@@'' @ rest) = None"
    using that e by (simp add: diff_step_def classify_def startsWith_def)
  have s: "diff_step w ?h = diff_step w (''@@'' @ rest)"
    using e by (simp add: diff_step_def classify_def startsWith_def)
  from e n s hunk_search_no_at[of rest] show ?thesis
    by (simp add: walk_lines_Cons)
qed

text \<open>
  After \<^verbatim>\<open>@@ -5 +5 @@ mail(user@host)\<close> as the first line, the added line is recorded as
  line 1, not as line 5: the \<^verbatim>\<open>@\<close> of the heading begins no header.
\<close>

theorem short_hunk_header_keeps_counters_witness:
  "hunk_search ''@@ -5 +5 @@ mail(user@host)'' = None
   \<and> diff_step walk_init ''@@ -5 +5 @@ mail(user@host)''
       = \<lparr>lineMap = Map.empty, currentPosition = 1, leftLine = 0, rightLine = 0\<rparr>
   \<and> lineMap (walk_lines walk_init [''@@ -5 +5 @@ mail(user@host)'', ''+x'']) = [1 \<mapsto> 1]
   \<and> hunk_search ''@@ -5 +5 @@ f()'' = None"
proof -
  have n: "hunk_search ''@@ mail(user@host)'' = None"
    by (simp add: hunk_at_def expect_def)
  show ?thesis
    using short_hunk_header_keeps_counters[of "''5''" "''5''" "'' mail(user@host)''" walk_init "[''+x'']"]
      short_hunk_header_keeps_counters[of "''5''" "''5''" "'' f()''"] n
    by (simp add: isDigit_def walk_init_def walk_lines_def step_added startsWith_def number_exact)
qed

text \<open>
  Claim C10 as stated: the heading of the header below holds a full hunk header. The
  pattern is not anchored and matches it, so the counters 40 and 41 are reset to 0 and 0.
\<close>

theorem heading_with_header_counterexample:
  "diff_step \<lparr>lineMap = Map.empty, currentPosition = 7, leftLine = 40, rightLine = 41\<rparr>
     ''@@ -5 +5 @@ it(@@ -1,3 +1,4 @@)''
   = \<lparr>lineMap = Map.empty, currentPosition = 8, leftLine = 0, rightLine = 0\<rparr>"
  by (simp add: diff_step_def classify_def startsWith_def hunk_at_def expect_def digits1_def
      isDigit_def parseInt_def decimal_def number_exact)

text \<open>
  Claim C1 says that the lines beginning with \<^verbatim>\<open>---\<close> and \<^verbatim>\<open>+++\<close> leave the two line
  counters alone. In the loop the tests for \<^verbatim>\<open>-\<close> and \<^verbatim>\<open>+\<close> come first, so the file
  header line \<^verbatim>\<open>--- a/f.js\<close> adds one to \<^verbatim>\<open>leftLine\<close>, and \<^verbatim>\<open>+++ b/f.js\<close> adds one to
  \<^verbatim>\<open>rightLine\<close> and records an entry of the map; the tests for \<^verbatim>\<open>---\<close> and \<^verbatim>\<open>+++\<close> in
  the last branch never fail (\<open>last_branch_tests_are_dead\<close>). The rest of the claim holds:
  \<open>step_removed\<close>, \<open>step_added\<close>, \<open>step_context\<close> and \<open>step_file_header\<close>.
\<close>

theorem file_header_lines_move_counters:
  "diff_step w ''--- a/f.js''
     = w\<lparr>leftLine := number (leftLine w + 1), currentPosition := currentPosition w + 1\<rparr>
   \<and> diff_step w ''+++ b/f.js''
       = w\<lparr>rightLine := number (rightLine w + 1),
            lineMap := (lineMap w)(number (rightLine w + 1) \<mapsto> currentPosition w),
            currentPosition := currentPosition w + 1\<rparr>
   \<and> diff_step walk_init ''--- a/f.js''
       = \<lparr>lineMap = Map.empty, currentPosition = 1, leftLine = 1, rightLine = 0\<rparr>
   \<and> diff_step walk_init ''+++ b/f.js''
       = \<lparr>lineMap = [1 \<mapsto> 0], currentPosition = 1, leftLine = 0, rightLine = 1\<rparr>"
  by (simp add: step_removed step_added startsWith_def walk_init_def number_exact)

text \<open>
  Claim C2 says that the keys of the map are exactly the new-file lines that the segment
  shows as context or added lines. On the diff below the hunk covers the new-file lines
  10 to 12, and the map has the key 1 as well: it is the line \<^verbatim>\<open>+++ b/f.js\<close>, at position 3.
\<close>

theorem header_line_becomes_key:
  "fst (getDiffPositions (Inr ''diff --git a/f.js b/f.js\<newline>index 1..2 100644\<newline>--- a/f.js\<newline>+++ b/f.js\<newline>@@ -10,2 +10,3 @@\<newline> ctx\<newline>+added\<newline> ctx'') ''f.js'')
     = [1 \<mapsto> 3, 10 \<mapsto> 5, 11 \<mapsto> 6, 12 \<mapsto> 7]"
  by (simp add: getDiffPositions_def fileSegment_def search_m_def filePattern_def path_atoms_def
      nextFilePattern_def isLineTerminator_def substring_def walk_lines_def walk_init_def
      diff_step_def classify_def startsWith_def hunk_at_def expect_def digits1_def isDigit_def
      parseInt_def decimal_def number_exact eval_nat_numeral)

text \<open>
  A diff text that ends with a line feed gives one more key: \<^verbatim>\<open>split\<close> returns an empty
  last element, which the loop walks as a context line. The hunk of \<open>math_diff\<close> ends at
  the new-file line 2, and the map has the key 3.
\<close>

lemma trailing_line_feed_adds_key:
  "fst (getDiffPositions (Inr math_diff) ''math.js'') = [1 \<mapsto> 6, 2 \<mapsto> 7, 3 \<mapsto> 8]"
  by (simp add: math_diff_def getDiffPositions_def fileSegment_def search_m_def filePattern_def
      path_atoms_def nextFilePattern_def isLineTerminator_def substring_def walk_lines_def
      walk_init_def diff_step_def classify_def startsWith_def hunk_at_def expect_def digits1_def
      isDigit_def parseInt_def decimal_def number_exact eval_nat_numeral)

text \<open>
  Claim C5 says that the map is empty when the header \<^verbatim>\<open>diff --git a/<path> b/<path>\<close>
  of the path is absent from the diff. The diff below only changes the file \<^verbatim>\<open>axjs\<close>; the
  header of \<^verbatim>\<open>a.js\<close> occurs nowhere in it, and the map for \<^verbatim>\<open>a.js\<close> is not empty, since
  the \<^verbatim>\<open>.\<close> of the path is a wildcard of the pattern.
\<close>

theorem wildcard_path_matches_other_file:
  "modelled_path ''a.js''
   \<and> \<not> sublist ''diff --git a/a.js b/a.js'' ''diff --git a/axjs b/axjs\<newline>@@ -1,1 +1,1 @@\<newline>+x''
   \<and> getDiffPositions (Inr ''diff --git a/axjs b/axjs\<newline>@@ -1,1 +1,1 @@\<newline>+x'') ''a.js''
       = ([1 \<mapsto> 2], [])"
proof -
  have "\<not> sublist ''diff --git a/a.js b/a.js'' ''diff --git a/axjs b/axjs\<newline>@@ -1,1 +1,1 @@\<newline>+x''"
  proof
    assume "sublist ''diff --git a/a.js b/a.js'' ''diff --git a/axjs b/axjs\<newline>@@ -1,1 +1,1 @@\<newline>+x''"
    then have "set ''diff --git a/a.js b/a.js'' \<subseteq> set ''diff --git a/axjs b/axjs\<newline>@@ -1,1 +1,1 @@\<newline>+x''"
      by (rule set_mono_sublist)
    then show False by simp
  qed
  moreover have "getDiffPositions (Inr ''diff --git a/axjs b/axjs\<newline>@@ -1,1 +1,1 @@\<newline>+x'') ''a.js''
       = ([1 \<mapsto> 2], [])"
    by (simp add: getDiffPositions_def fileSegment_def search_m_def filePattern_def path_atoms_def
      nextFilePattern_def isLineTerminator_def substring_def walk_lines_def walk_init_def
      diff_step_def classify_def startsWith_def hunk_at_def expect_def digits1_def isDigit_def
      parseInt_def decimal_def number_exact eval_nat_numeral)
  moreover have "modelled_path ''a.js''"
    by (simp add: modelled_path_def)
  ultimately show ?thesis by simp
qed



text \<open>
  For a path without \<^verbatim>\<open>.\<close> (and without any other character that a regular expression
  reads as an operator) the pattern of the file is literal, and claim C5 holds as it is
  stated: when the header of the path begins no line of the diff, the map is empty.
\<close>

lemma search_from_Some:
  "search_from p b i s = Some k \<Longrightarrow>
     \<exists>pre post. s = pre @ post \<and> k = i + length pre \<and> match_atoms p post
        \<and> (if pre = [] then b else isLineTerminator (last pre))"
proof (induction s arbitrary: b i)
  case Nil
  then show ?case by (auto split: if_splits)
next
  case (Cons c cs)
  show ?case
  proof (cases "b \<and> match_atoms p (c # cs)")
    case True
    with Cons.prems have "k = i" by simp
    with True show ?thesis by (intro exI[of _ "[]"] exI[of _ "c # cs"]) simp
  next
    case False
    with Cons.prems have "search_from p (isLineTerminator c) (Suc i) cs = Some k" by auto
    from Cons.IH[OF this] obtain pre post where
      "cs = pre @ post" "k = Suc i + length pre" "match_atoms p post"
      "if pre = [] then isLineTerminator c else isLineTerminator (last pre)"
      by blast
    then show ?thesis
      by (intro exI[of _ "c # pre"] exI[of _ post]) (auto split: if_splits)
  qed
qed

lemma match_literals: "match_atoms (map Lit h) t \<Longrightarrow> \<exists>rest. t = h @ rest"
proof (induction h arbitrary: t)
  case Nil
  then show ?case by simp
next
  case (Cons x h)
  then show ?case by (cases t) auto
qed

lemma path_atoms_plain: "CHR ''.'' \<notin> set p \<Longrightarrow> path_atoms p = map Lit p"
  by (induction p) (auto simp: path_atoms_def)

lemma absent_header_plain_path:
  assumes "CHR ''.'' \<notin> set filePath" and "modelled_path filePath"
    and "\<not> (\<exists>pre post. diff = pre @ (''diff --git a/'' @ filePath @ '' b/'' @ filePath) @ post
              \<and> (pre = [] \<or> isLineTerminator (last pre)))"
  shows "getDiffPositions (Inr diff) filePath
           = (Map.empty, [Log (''No diff found for file: '' @ filePath)])"
proof -
  have p: "filePattern filePath = map Lit (''diff --git a/'' @ filePath @ '' b/'' @ filePath)"
    by (simp add: filePattern_def path_atoms_plain[OF assms(1)])
  have "search_m (filePattern filePath) diff = None"
  proof (rule ccontr)
    assume "search_m (filePattern filePath) diff \<noteq> None"
    then obtain k where "search_from (filePattern filePath) True 0 diff = Some k"
      by (auto simp: search_m_def)
    from search_from_Some[OF this] obtain pre post where
      d: "diff = pre @ post" and m: "match_atoms (filePattern filePath) post"
      and l: "if pre = [] then True else isLineTerminator (last pre)"
      by blast
    from m obtain rest where "post = (''diff --git a/'' @ filePath @ '' b/'' @ filePath) @ rest"
      unfolding p using match_literals by blast
    with d l assms(3) show False by (auto split: if_splits)
  qed
  then show ?thesis by (simp add: getDiffPositions_def fileSegment_def)
qed

section \<open>Properties of the Syntax Scanner\<close>

text \<open>
  The handlers of methods look for the documentation comment on the node itself, the handler
  of function declarations looks on the parent of the node, and the handler of variable
  declarators looks at the property \<^verbatim>\<open>parent\<close> of the parent node: where the nodes have
  no such property, no comment keeps a variable-bound function from being emitted.
\<close>

lemma method_with_JSDoc_skipped:
  "hasJSDoc (Some n) \<Longrightarrow> ClassMethod fileContent parent n = [] \<and> ObjectMethod fileContent parent n = []"
  by (simp add: ClassMethod_def ObjectMethod_def split: option.splits)

lemma declaration_checks_parent:
  "child ''id'' n = Some i \<Longrightarrow> nname i = Some nm \<Longrightarrow> nm \<noteq> [] \<Longrightarrow> \<not> hasJSDoc parent \<Longrightarrow>
   FunctionDeclaration fileContent parent n = [found fileContent nm Function n]"
  by (simp add: FunctionDeclaration_def truthy_def)

lemma variable_declarator_ignores_comments:
  assumes "parent_prop p = None"
    and "child ''id'' n = Some i" "nname i = Some nm" "nm \<noteq> []"
    and "child ''init'' n = Some f"
    and "ntype f = ''FunctionExpression'' \<or> ntype f = ''ArrowFunctionExpression''"
  shows "VariableDeclarator fileContent (Some p) n = [found fileContent nm Function n]"
  using assms by (auto simp: VariableDeclarator_def truthy_def hasJSDoc_def)

text \<open>
  Claim C6 says that a callable with a documentation comment right before it is never
  emitted. The parser attaches the comment of the source below to the function declaration,
  and the handler looks for it on the parent, the \<^verbatim>\<open>Program\<close> node: the documented function
  \<^verbatim>\<open>add\<close> is emitted.
\<close>

theorem documented_function_is_emitted:
  "hasJSDoc (Some (add_declaration 13 2 (Some [Comment ''CommentBlock'' ''* Adds. ''])))
   \<and> detectFunctions (Inr documented_js) (\<lambda>text. Inr documented_ast) ''math.js''
     = ([\<lparr>name = ''add'', startIndex = 13, content = ''function add(a,b) { return a+b; }'',
          kind = Function, startLine = 2,
          lineContent = ''function add(a,b) { return a+b; }''\<rparr>], [])"
  by (simp add: hasJSDoc_def isJSDoc_def startsWith_def add_declaration_def documented_js_def
      documented_ast_def program_def detectFunctions_def traverse_def visitor_def
      FunctionDeclaration_def child_def truthy_def found_def substring_def lineAt_def)

section \<open>Properties of the Orchestrator\<close>

lemma say_fields [simp]:
  "stats (say out r) = stats r" "reviews (say out r) = reviews r"
  "printed (say out r) = printed r @ out"
  by (simp_all add: say_def)


lemma say_Nil [simp]: "say [] r = r"
  by (simp add: say_def)

lemma suggest_effect:
  "suggest answers dp fp k funcs sugg r = (sugg', r') \<Longrightarrow>
     length sugg \<le> length sugg'
     \<and> totalSuggestions (stats r') = totalSuggestions (stats r) + (length sugg' - length sugg)
     \<and> suggestedFiles (stats r') = suggestedFiles (stats r)
     \<and> totalFunctions (stats r') = totalFunctions (stats r)
     \<and> totalFiles (stats r') = totalFiles (stats r)
     \<and> reviews r' = reviews r"
proof (induction funcs arbitrary: k sugg r sugg' r')
  case Nil
  then show ?case by simp
next
  case (Cons func funcs)
  obtain jsdoc out where g: "generateJSDocComment (answers k) (name func) = (jsdoc, out)"
    by (cases "generateJSDocComment (answers k) (name func)")
  let ?r2 = "say out (say [Log (''Generating JSDoc for '' @ kind_name (kind func) @ '' '' @ name func)] r)"
  show ?case
  proof (cases "truthy jsdoc")
    case None
    then have "suggest answers dp fp (Suc k) funcs sugg ?r2 = (sugg', r')"
      using Cons.prems g by (simp add: Let_def)
    from Cons.IH[OF this] show ?thesis by simp
  next
    case (Some j)
    show ?thesis
    proof (cases "dp (int (startLine func))")
      case None
      then have "suggest answers dp fp (Suc k) funcs sugg
          (say [Log (''Could not find position for line '' @ show_nat (startLine func)
                               @ '' in '' @ fp)] ?r2) = (sugg', r')"
        using Cons.prems g Some by (simp add: Let_def)
      from Cons.IH[OF this] show ?thesis by simp
    next
      case (Some p)
      then have "suggest answers dp fp (Suc k) funcs
          (sugg @ [\<lparr>s_filePath = fp, s_position = p, s_jsdocComment = j,
                    s_lineContent = lineContent func, s_functionName = name func\<rparr>])
          (?r2\<lparr>stats := (stats ?r2)\<lparr>totalSuggestions := totalSuggestions (stats ?r2) + 1\<rparr>\<rparr>)
          = (sugg', r')"
        using Cons.prems g \<open>truthy jsdoc = Some j\<close> by (simp add: Let_def)
      from Cons.IH[OF this] show ?thesis by auto
    qed
  qed
qed


lemma submitPRReview_effect:
  "stats (submitPRReview cr sugg r) = stats r"
  "reviews (submitPRReview cr sugg r)
     = reviews r @ (if sugg \<noteq> [] \<and> cr = None
                    then [map (\<lambda>s. \<lparr>c_path = s_filePath s, c_position = s_position s,
                                       c_body = review_body s\<rparr>) sugg]
                    else [])"
  by (simp_all add: submitPRReview_def Let_def split: option.splits)

lemma processFile_effect:
  "\<exists>n. totalSuggestions (stats (processFile w fp r)) = totalSuggestions (stats r) + n
       \<and> suggestedFiles (stats (processFile w fp r))
           = suggestedFiles (stats r) @ (if n = 0 then [] else [(fp, n)])
       \<and> published (processFile w fp r)
           = published r + (if createReview w = None then n else 0)
       \<and> totalFunctions (stats (processFile w fp r)) = totalFunctions (stats r)
       \<and> totalFiles (stats (processFile w fp r)) = totalFiles (stats r)"
proof -
  obtain funs out where d: "detectFunctions (readFile w) (parse w) fp = (funs, out)"
    by (cases "detectFunctions (readFile w) (parse w) fp")
  show ?thesis
  proof (cases "funs = []")
    case True
    then have "processFile w fp r
        = say [Log (''No functions without JSDoc found in '' @ fp)]
            (say out (say [Log (''Processing file: '' @ fp)] r))"
      using d by (simp add: processFile_def Let_def)
    then show ?thesis by (intro exI[of _ 0]) (simp add: published_def)
  next
    case False
    obtain dp out' where g: "getDiffPositions (pullsGet w) fp = (dp, out')"
      by (cases "getDiffPositions (pullsGet w) fp")
    let ?r4 = "say out' (say [Log (''Found '' @ show_nat (length funs)
                               @ '' functions without JSDoc in '' @ fp)]
                 (say out (say [Log (''Processing file: '' @ fp)] r)))"
    obtain sugg r5 where s: "suggest (completions w) dp fp 0 funs [] ?r4 = (sugg, r5)"
      by (cases "suggest (completions w) dp fp 0 funs [] ?r4")
    note e = suggest_effect[OF s]
    show ?thesis
    proof (cases "sugg = []")
      case True
      then have "processFile w fp r = r5"
        using d g s False by (simp add: processFile_def Let_def)
      then show ?thesis using e True by (intro exI[of _ 0]) (simp add: published_def)
    next
      case nonempty: False
      then have "processFile w fp r
          = (submitPRReview (createReview w) sugg r5)\<lparr>stats :=
               (stats (submitPRReview (createReview w) sugg r5))\<lparr>suggestedFiles :=
                  suggestedFiles (stats (submitPRReview (createReview w) sugg r5))
                  @ [(fp, length sugg)]\<rparr>\<rparr>"
        using d g s False by (simp add: processFile_def Let_def)
      then show ?thesis using e nonempty
        by (intro exI[of _ "length sugg"]) (simp add: published_def submitPRReview_effect)
    qed
  qed
qed


lemma processFiles_effect:
  "\<exists>added. suggestedFiles (stats (processFiles ws i files r)) = suggestedFiles (stats r) @ added
       \<and> totalSuggestions (stats (processFiles ws i files r))
           = totalSuggestions (stats r) + sum_list (map snd added)
       \<and> published (processFiles ws i files r) \<le> published r + sum_list (map snd added)
       \<and> ((\<forall>j. createReview (ws j) = None) \<longrightarrow>
            published (processFiles ws i files r) = published r + sum_list (map snd added))
       \<and> totalFunctions (stats (processFiles ws i files r)) = totalFunctions (stats r)
       \<and> totalFiles (stats (processFiles ws i files r)) = totalFiles (stats r)"
proof (induction files arbitrary: i r)
  case Nil
  show ?case by (intro exI[of _ "[]"]) simp
next
  case (Cons f fs)
  let ?r = "if trim f \<noteq> [] then processFile (ws i) (trim f) r else r"
  have "\<exists>n. totalSuggestions (stats ?r) = totalSuggestions (stats r) + n
       \<and> suggestedFiles (stats ?r)
           = suggestedFiles (stats r) @ (if n = 0 then [] else [(trim f, n)])
       \<and> published ?r = published r + (if createReview (ws i) = None then n else 0)
       \<and> totalFunctions (stats ?r) = totalFunctions (stats r)
       \<and> totalFiles (stats ?r) = totalFiles (stats r)"
  proof (cases "trim f \<noteq> []")
    case True
    then show ?thesis using processFile_effect[of "ws i" "trim f" r] by simp
  next
    case False
    then show ?thesis by (intro exI[of _ 0]) simp
  qed
  then obtain n where n:
    "totalSuggestions (stats ?r) = totalSuggestions (stats r) + n"
    "suggestedFiles (stats ?r) = suggestedFiles (stats r) @ (if n = 0 then [] else [(trim f, n)])"
    "published ?r = published r + (if createReview (ws i) = None then n else 0)"
    "totalFunctions (stats ?r) = totalFunctions (stats r)"
    "totalFiles (stats ?r) = totalFiles (stats r)"
    by blast
  from Cons.IH[of "Suc i" ?r] obtain added where a:
    "suggestedFiles (stats (processFiles ws (Suc i) fs ?r)) = suggestedFiles (stats ?r) @ added"
    "totalSuggestions (stats (processFiles ws (Suc i) fs ?r))
       = totalSuggestions (stats ?r) + sum_list (map snd added)"
    "published (processFiles ws (Suc i) fs ?r) \<le> published ?r + sum_list (map snd added)"
    "(\<forall>j. createReview (ws j) = None) \<longrightarrow>
       published (processFiles ws (Suc i) fs ?r) = published ?r + sum_list (map snd added)"
    "totalFunctions (stats (processFiles ws (Suc i) fs ?r)) = totalFunctions (stats ?r)"
    "totalFiles (stats (processFiles ws (Suc i) fs ?r)) = totalFiles (stats ?r)"
    by blast
  have step: "processFiles ws i (f # fs) r = processFiles ws (Suc i) fs ?r"
    by simp
  have pub_le: "published ?r \<le> published r + n"
    by (simp add: n(3))
  have pub_eq: "(\<forall>j. createReview (ws j) = None) \<longrightarrow> published ?r = published r + n"
    by (simp add: n(3))
  have sum: "sum_list (map snd ((if n = 0 then [] else [(trim f, n)]) @ added))
      = n + sum_list (map snd added)"
    by simp
  show ?case
    unfolding step
  proof (intro exI[of _ "(if n = 0 then [] else [(trim f, n)]) @ added"] conjI)
    show "suggestedFiles (stats (processFiles ws (Suc i) fs ?r))
        = suggestedFiles (stats r) @ (if n = 0 then [] else [(trim f, n)]) @ added"
      by (simp only: a(1) n(2) append_assoc)
    show "totalSuggestions (stats (processFiles ws (Suc i) fs ?r))
        = totalSuggestions (stats r) + sum_list (map snd ((if n = 0 then [] else [(trim f, n)]) @ added))"
      by (simp only: a(2) n(1) sum add.assoc)
    show "published (processFiles ws (Suc i) fs ?r)
        \<le> published r + sum_list (map snd ((if n = 0 then [] else [(trim f, n)]) @ added))"
      unfolding sum using a(3) pub_le by linarith
    show "(\<forall>j. createReview (ws j) = None) \<longrightarrow>
        published (processFiles ws (Suc i) fs ?r)
        = published r + sum_list (map snd ((if n = 0 then [] else [(trim f, n)]) @ added))"
      unfolding sum using a(4) pub_eq by auto
    show "totalFunctions (stats (processFiles ws (Suc i) fs ?r)) = totalFunctions (stats r)"
      by (simp only: a(5) n(4))
    show "totalFiles (stats (processFiles ws (Suc i) fs ?r)) = totalFiles (stats r)"
      by (simp only: a(6) n(5))
  qed
qed

lemma main_run:
  "(\<exists>out. fst (main envFiles glob ws writeError) = say out run_init)
   \<or> (\<exists>files out out'. fst (main envFiles glob ws writeError)
         = say out' (processFiles ws 0 files
             (say out (run_init\<lparr>stats := (stats run_init)\<lparr>totalFiles := length files\<rparr>\<rparr>))))"
proof (cases "changedFiles envFiles glob")
  case (Inl e)
  then show ?thesis by (auto simp: main_def)
next
  case (Inr files)
  show ?thesis
  proof (cases "length files = 0")
    case True
    with Inr show ?thesis by (auto simp: main_def)
  next
    case False
    with Inr have "\<exists>out'. fst (main envFiles glob ws writeError)
         = say out' (processFiles ws 0 files
             (say [Log (''Found '' @ show_nat (length files) @ '' files to process'')]
                (run_init\<lparr>stats := (stats run_init)\<lparr>totalFiles := length files\<rparr>\<rparr>)))"
      by (cases writeError) (auto simp: main_def Let_def)
    then show ?thesis by blast
  qed
qed

lemma main_outcome:
  "snd (main envFiles glob ws writeError) = Written summary \<Longrightarrow>
     summary = summary_text (stats (fst (main envFiles glob ws writeError)))"
  by (cases writeError; cases "changedFiles envFiles glob")
     (auto simp: main_def Let_def split: if_splits)

lemma suggest_stats_only:
  "stats r = stats r' \<Longrightarrow>
     fst (suggest answers dp fp k funcs sugg r) = fst (suggest answers dp fp k funcs sugg r')
     \<and> stats (snd (suggest answers dp fp k funcs sugg r))
         = stats (snd (suggest answers dp fp k funcs sugg r'))"
proof (induction funcs arbitrary: k sugg r r')
  case Nil
  then show ?case by simp
next
  case (Cons func funcs)
  obtain jsdoc out where g: "generateJSDocComment (answers k) (name func) = (jsdoc, out)"
    by (cases "generateJSDocComment (answers k) (name func)")
  let ?l = "[Log (''Generating JSDoc for '' @ kind_name (kind func) @ '' '' @ name func)]"
  have s2: "stats (say out (say ?l r)) = stats (say out (say ?l r'))"
    using Cons.prems by simp
  show ?case
  proof (cases "truthy jsdoc")
    case None
    then show ?thesis
      using g Cons.IH[OF s2, of "Suc k" sugg] by (simp add: Let_def)
  next
    case (Some j)
    show ?thesis
    proof (cases "dp (int (startLine func))")
      case None
      let ?m = "[Log (''Could not find position for line '' @ show_nat (startLine func)
                               @ '' in '' @ fp)]"
      have "stats (say ?m (say out (say ?l r))) = stats (say ?m (say out (say ?l r')))"
        using Cons.prems by simp
      from Cons.IH[OF this, of "Suc k" sugg] show ?thesis
        using g Some None by (simp add: Let_def)
    next
      case (Some p)
      let ?u = "\<lambda>r. (say out (say ?l r))\<lparr>stats := (stats (say out (say ?l r)))\<lparr>totalSuggestions :=
                   totalSuggestions (stats (say out (say ?l r))) + 1\<rparr>\<rparr>"
      have "stats (?u r) = stats (?u r')"
        using Cons.prems by simp
      from Cons.IH[OF this, of "Suc k"] show ?thesis
        using g \<open>truthy jsdoc = Some j\<close> Some by (simp add: Let_def)
    qed
  qed
qed

lemma processFile_stats_only:
  assumes "stats r = stats r'"
    and "readFile w = readFile w'" "parse w = parse w'" "pullsGet w = pullsGet w'"
    and "completions w = completions w'"
  shows "stats (processFile w fp r) = stats (processFile w' fp r')"
proof -
  obtain funs out where d: "detectFunctions (readFile w) (parse w) fp = (funs, out)"
    by (cases "detectFunctions (readFile w) (parse w) fp")
  obtain dp out' where g: "getDiffPositions (pullsGet w) fp = (dp, out')"
    by (cases "getDiffPositions (pullsGet w) fp")
  let ?r4 = "\<lambda>r. say out' (say [Log (''Found '' @ show_nat (length funs)
                               @ '' functions without JSDoc in '' @ fp)]
                 (say out (say [Log (''Processing file: '' @ fp)] r)))"
  have s4: "stats (?r4 r) = stats (?r4 r')" using assms(1) by simp
  note e = suggest_stats_only[OF s4, of "completions w" dp fp 0 funs "[]"]
  obtain sugg r5 where s: "suggest (completions w) dp fp 0 funs [] (?r4 r) = (sugg, r5)"
    by (cases "suggest (completions w) dp fp 0 funs [] (?r4 r)")
  obtain sugg' r5' where s': "suggest (completions w) dp fp 0 funs [] (?r4 r') = (sugg', r5')"
    by (cases "suggest (completions w) dp fp 0 funs [] (?r4 r')")
  have eq: "sugg' = sugg" "stats r5' = stats r5"
    using e s s' by simp_all
  show ?thesis
    using d g s s' eq assms
    by (simp add: processFile_def Let_def submitPRReview_effect)
qed

lemma processFiles_stats_only:
  assumes "\<forall>j. readFile (ws j) = readFile (ws' j) \<and> parse (ws j) = parse (ws' j)
             \<and> pullsGet (ws j) = pullsGet (ws' j) \<and> completions (ws j) = completions (ws' j)"
  shows "stats r = stats r' \<Longrightarrow> stats (processFiles ws i fs r) = stats (processFiles ws' i fs r')"
proof (induction fs arbitrary: i r r')
  case Nil
  then show ?case by simp
next
  case (Cons f fs)
  have "stats (if trim f \<noteq> [] then processFile (ws i) (trim f) r else r)
      = stats (if trim f \<noteq> [] then processFile (ws' i) (trim f) r' else r')"
    using Cons.prems assms processFile_stats_only[of r r' "ws i" "ws' i" "trim f"] by simp
  from Cons.IH[OF this] show ?case by simp
qed

lemma main_stats_only:
  assumes "\<forall>j. readFile (ws j) = readFile (ws' j) \<and> parse (ws j) = parse (ws' j)
             \<and> pullsGet (ws j) = pullsGet (ws' j) \<and> completions (ws j) = completions (ws' j)"
  shows "stats (fst (main envFiles glob ws writeError))
           = stats (fst (main envFiles glob ws' writeError))
         \<and> (snd (main envFiles glob ws writeError) = snd (main envFiles glob ws' writeError))"
proof (cases "changedFiles envFiles glob")
  case (Inl e)
  then show ?thesis by (simp add: main_def)
next
  case (Inr files)
  let ?r2 = "say [Log (''Found '' @ show_nat (length files) @ '' files to process'')]
               (run_init\<lparr>stats := (stats run_init)\<lparr>totalFiles := length files\<rparr>\<rparr>)"
  have "stats (processFiles ws 0 files ?r2) = stats (processFiles ws' 0 files ?r2)"
    by (rule processFiles_stats_only[OF assms]) simp
  then show ?thesis
    using Inr by (cases writeError) (simp_all add: main_def Let_def)
qed



text \<open>
  Claim C9. No operation changes \<^verbatim>\<open>totalFunctions\<close>: it is 0 at the end of every run, and a
  summary that is written has the line \<^verbatim>\<open>- Total functions analyzed: 0\<close>.
\<close>

theorem totalFunctions_stays_zero:
  "totalFunctions (stats (processFile w filePath r)) = totalFunctions (stats r)
   \<and> totalFunctions (stats (fst (main envFiles glob ws writeError))) = 0
   \<and> (snd (main envFiles glob ws writeError) = Written summary \<longrightarrow>
        (\<exists>pre post. summary = pre @ ''- Total functions analyzed: 0\<newline>'' @ post))"
proof -
  have pf: "totalFunctions (stats (processFile w filePath r)) = totalFunctions (stats r)"
    using processFile_effect[of w filePath r] by blast
  have pfs: "\<And>i fs r. totalFunctions (stats (processFiles ws i fs r)) = totalFunctions (stats r)"
    using processFiles_effect by blast
  have z: "totalFunctions (stats (fst (main envFiles glob ws writeError))) = 0"
    using main_run[of envFiles glob ws writeError]
    by (auto simp: pfs run_init_def)
  have s: "\<exists>pre post. summary = pre @ ''- Total functions analyzed: 0\<newline>'' @ post"
    if w: "snd (main envFiles glob ws writeError) = Written summary"
  proof -
    let ?st = "stats (fst (main envFiles glob ws writeError))"
    have "summary = summary_text ?st" by (rule main_outcome[OF w])
    then have "summary =
        (''\<newline>## Summary of JSDoc Suggestions\<newline>\<newline>''
         @ [CHR 0xF0, CHR 0x9F, CHR 0x93, CHR 0x8A] @ '' **Statistics**:\<newline>''
         @ ''- Total files processed: '' @ show_nat (totalFiles ?st) @ ''\<newline>'')
        @ ''- Total functions analyzed: 0\<newline>''
        @ (''- Total JSDoc suggestions: '' @ show_nat (totalSuggestions ?st) @ ''\<newline>''
         @ ''- Files with suggestions: '' @ show_nat (length (suggestedFiles ?st)) @ ''\<newline>\<newline>''
         @ (if length (suggestedFiles ?st) > 0 then
              ''\<newline>## Files with JSDoc Suggestions\<newline>\<newline>''
              @ ''| File | Suggestions |\<newline>|------|-------------|\<newline>''
              @ join ''\<newline>'' (map summary_row (suggestedFiles ?st)) @ ''\<newline>''
            else [])
         @ ''\<newline>\<newline>''
         @ [CHR 0xE2, CHR 0x84, CHR 0xB9, CHR 0xEF, CHR 0xB8, CHR 0x8F]
         @ '' These JSDoc suggestions were automatically generated using AI. \<newline>''
         @ ''You can apply them directly by clicking the '' @ [CHR 0x22] @ ''Commit suggestion''
         @ [CHR 0x22] @ '' button on each review comment.\<newline>'')"
      by (simp add: summary_text_def z show_nat.simps[of 0])
    then show ?thesis by blast
  qed
  from pf z s show ?thesis by blast
qed

text \<open>
  A run that finds the function \<^verbatim>\<open>add\<close> and publishes a suggestion for it.
\<close>

theorem totalFunctions_stays_zero_witness:
  "snd (main (Some ''math.js'') (Inr []) (\<lambda>i. math_world None) None)
     = Written (summary_text \<lparr>totalFiles = 1, totalFunctions = 0, totalSuggestions = 1,
                              suggestedFiles = [(''math.js'', 1)]\<rparr>)
   \<and> (\<exists>pre post. summary_text \<lparr>totalFiles = 1, totalFunctions = 0, totalSuggestions = 1,
                              suggestedFiles = [(''math.js'', 1)]\<rparr>
         = pre @ ''- Total functions analyzed: 0\<newline>'' @ post)
   \<and> totalFunctions (stats (fst (main (Some ''math.js'') (Inr []) (\<lambda>i. math_world None) None))) = 0"
proof -
  have w: "snd (main (Some ''math.js'') (Inr []) (\<lambda>i. math_world None) None)
     = Written (summary_text \<lparr>totalFiles = 1, totalFunctions = 0, totalSuggestions = 1,
                              suggestedFiles = [(''math.js'', 1)]\<rparr>)"
    by code_simp
  show ?thesis
    using totalFunctions_stays_zero[of _ _ _ "Some ''math.js''" "Inr []" "\<lambda>i. math_world None" None
        "summary_text \<lparr>totalFiles = 1, totalFunctions = 0, totalSuggestions = 1,
                              suggestedFiles = [(''math.js'', 1)]\<rparr>"] w
    by blast
qed

text \<open>
  Claim C7, amended. The counts of the summary are those of the suggestions assembled and
  handed to the Publisher: \<^verbatim>\<open>totalSuggestions\<close> is the sum of the counts of the files, the
  number of comments published is at most that, and equal to it when no review request
  fails. The answers of the review requests change neither the statistics nor the summary.
\<close>

theorem summary_counts_assembled_suggestions:
  "totalSuggestions (stats (fst (main envFiles glob ws writeError)))
     = sum_list (map snd (suggestedFiles (stats (fst (main envFiles glob ws writeError)))))
   \<and> published (fst (main envFiles glob ws writeError))
       \<le> totalSuggestions (stats (fst (main envFiles glob ws writeError)))
   \<and> ((\<forall>i. createReview (ws i) = None) \<longrightarrow>
        published (fst (main envFiles glob ws writeError))
          = totalSuggestions (stats (fst (main envFiles glob ws writeError))))
   \<and> (snd (main envFiles glob ws writeError) = Written summary \<longrightarrow>
        summary = summary_text (stats (fst (main envFiles glob ws writeError))))
   \<and> stats (fst (main envFiles glob (\<lambda>j. (ws j)\<lparr>createReview := cr j\<rparr>) writeError))
       = stats (fst (main envFiles glob ws writeError))
   \<and> snd (main envFiles glob (\<lambda>j. (ws j)\<lparr>createReview := cr j\<rparr>) writeError)
       = snd (main envFiles glob ws writeError)"
proof -
  let ?m = "fst (main envFiles glob ws writeError)"
  consider (none) out where "?m = say out run_init"
    | (some) files out out' where "?m = say out' (processFiles ws 0 files
             (say out (run_init\<lparr>stats := (stats run_init)\<lparr>totalFiles := length files\<rparr>\<rparr>)))"
    using main_run[of envFiles glob ws writeError] by blast
  then have "totalSuggestions (stats ?m) = sum_list (map snd (suggestedFiles (stats ?m)))
     \<and> published ?m \<le> totalSuggestions (stats ?m)
     \<and> ((\<forall>i. createReview (ws i) = None) \<longrightarrow> published ?m = totalSuggestions (stats ?m))"
  proof cases
    case none
    then show ?thesis by (simp add: run_init_def published_def)
  next
    case some
    let ?r0 = "say out (run_init\<lparr>stats := (stats run_init)\<lparr>totalFiles := length files\<rparr>\<rparr>)"
    from processFiles_effect[of ws 0 files ?r0]
    obtain added where a:
      "suggestedFiles (stats (processFiles ws 0 files ?r0))
         = suggestedFiles (stats ?r0) @ added"
      "totalSuggestions (stats (processFiles ws 0 files ?r0))
         = totalSuggestions (stats ?r0) + sum_list (map snd added)"
      "published (processFiles ws 0 files ?r0)
         \<le> published ?r0 + sum_list (map snd added)"
      "(\<forall>j. createReview (ws j) = None) \<longrightarrow>
         published (processFiles ws 0 files ?r0)
           = published ?r0 + sum_list (map snd added)"
      by blast
    have z: "suggestedFiles (stats ?r0) = []" "totalSuggestions (stats ?r0) = 0" "published ?r0 = 0"
      by (simp_all add: run_init_def published_def)
    have pm: "published ?m = published (processFiles ws 0 files ?r0)"
      "stats ?m = stats (processFiles ws 0 files ?r0)"
      by (simp_all add: some published_def)
    show ?thesis using a z by (simp add: pm)
  qed
  moreover have "stats (fst (main envFiles glob (\<lambda>j. (ws j)\<lparr>createReview := cr j\<rparr>) writeError))
       = stats (fst (main envFiles glob ws writeError))
   \<and> snd (main envFiles glob (\<lambda>j. (ws j)\<lparr>createReview := cr j\<rparr>) writeError)
       = snd (main envFiles glob ws writeError)"
    by (rule main_stats_only) simp
  ultimately show ?thesis using main_outcome[of envFiles glob ws writeError summary] by blast
qed

lemma math_run_stats:
  "stats (fst (main (Some ''math.js'') (Inr []) (\<lambda>i. math_world None) None))
     = \<lparr>totalFiles = 1, totalFunctions = 0, totalSuggestions = 1, suggestedFiles = [(''math.js'', 1)]\<rparr>"
  by code_simp

text \<open>
  A run where the review request succeeds: one suggestion counted, one comment published.
\<close>

theorem summary_counts_assembled_suggestions_witness:
  "(\<forall>i::nat. createReview (math_world None) = None)
   \<and> totalSuggestions (stats (fst (main (Some ''math.js'') (Inr []) (\<lambda>i. math_world None) None))) = 1
   \<and> published (fst (main (Some ''math.js'') (Inr []) (\<lambda>i. math_world None) None)) = 1"
  using summary_counts_assembled_suggestions[of "Some ''math.js''" "Inr []" "\<lambda>i. math_world None" None]
    math_run_stats
  by (simp add: math_world_def)

text \<open>
  Claim C7 as stated: the review request for \<^verbatim>\<open>math.js\<close> fails and no comment is
  published, yet the summary counts one suggestion, and one for the file.
\<close>

theorem failed_publish_is_counted_counterexample:
  "totalSuggestions (stats (fst (main (Some ''math.js'') (Inr []) (\<lambda>i. math_world (Some ''HttpError'')) None))) = 1
   \<and> suggestedFiles (stats (fst (main (Some ''math.js'') (Inr []) (\<lambda>i. math_world (Some ''HttpError'')) None)))
       = [(''math.js'', 1)]
   \<and> reviews (fst (main (Some ''math.js'') (Inr []) (\<lambda>i. math_world (Some ''HttpError'')) None)) = []
   \<and> snd (main (Some ''math.js'') (Inr []) (\<lambda>i. math_world (Some ''HttpError'')) None)
       = Written (summary_text \<lparr>totalFiles = 1, totalFunctions = 0, totalSuggestions = 1,
                                suggestedFiles = [(''math.js'', 1)]\<rparr>)"
  by code_simp

end
